theory Spec2Isabelle
  imports Main "HOL-Library.Word" "HOL-Library.Signed_Division"
begin

section \<open>Values of the messaging library that the program reads\<close>

text \<open>
  The program is a Telegram agent (package main: troll.go, handle\_message.go) built on
  the gotd/td client library. The library's types are external to the repository; each
  one is embedded with exactly the fields and the variants the program inspects.
  Go's \<open>int64\<close> and (64-bit) \<open>int\<close> identifiers are 64-bit words: the program only
  copies and compares them.
\<close>

type_synonym int64 = "64 word"
type_synonym go_int = "64 word"

text \<open>tg.PeerClass: the interface implemented by PeerUser, PeerChat and PeerChannel.\<close>

datatype PeerClass = PeerUser int64 | PeerChat int64 | PeerChannel int64

text \<open>
  tg.Message, the plain message. The Go field holding the text is called Message; it is
  \<open>MessageText\<close> here because the interface variant below keeps the name Message.
\<close>

record Message_rec =
  Out :: bool
  ID :: go_int
  PeerID :: PeerClass
  MessageText :: string
  Date :: go_int

text \<open>tg.MessageClass: MessageEmpty, Message and MessageService (each carries its ID).\<close>

datatype MessageClass = MessageEmpty go_int | Message Message_rec | MessageService go_int

text \<open>tg.UpdateNewMessage: the event handed to the handler.\<close>

record UpdateNewMessage =
  upd_Message :: MessageClass
  Pts :: go_int
  PtsCount :: go_int

text \<open>tg.InputPeerUser: the addressable reference to one user.\<close>

record InputPeerUser =
  UserID :: int64
  AccessHash :: int64

text \<open>The zero value \<open>tg.InputPeerUser{}\<close>.\<close>

definition InputPeerUser_zero :: InputPeerUser where
  "InputPeerUser_zero = \<lparr>UserID = 0, AccessHash = 0\<rparr>"

text \<open>tg.InputPeerClass: what identity resolution returns.\<close>

datatype InputPeerClass =
    InputPeerEmpty
  | InputPeerSelf
  | InputPeerChat int64
  | InputPeerUserC InputPeerUser
  | InputPeerChannel int64 int64
  | InputPeerUserFromMessage int64
  | InputPeerChannelFromMessage int64

text \<open>tg.Document: the fields that make the file reference used for resending.\<close>

record Document =
  doc_ID :: int64
  doc_AccessHash :: int64
  doc_FileReference :: "8 word list"

definition Document_zero :: Document where
  "Document_zero = \<lparr>doc_ID = 0, doc_AccessHash = 0, doc_FileReference = []\<rparr>"

text \<open>tg.DocumentClass: DocumentEmpty (only an ID) or a Document.\<close>

datatype DocumentClass = DocumentEmpty int64 | DocumentC Document

text \<open>\<open>DocumentClass.AsNotEmpty()\<close>: the document and true, or nil and false.\<close>

fun AsNotEmpty :: "DocumentClass \<Rightarrow> Document option \<times> bool" where
  "AsNotEmpty (DocumentC d) = (Some d, True)"
| "AsNotEmpty (DocumentEmpty _) = (None, False)"

text \<open>tg.InputDocumentFileLocation and \<open>Document.AsInputDocumentFileLocation()\<close>.\<close>

record InputDocumentFileLocation =
  loc_ID :: int64
  loc_AccessHash :: int64
  loc_FileReference :: "8 word list"

definition AsInputDocumentFileLocation :: "Document \<Rightarrow> InputDocumentFileLocation" where
  "AsInputDocumentFileLocation d =
     \<lparr>loc_ID = doc_ID d, loc_AccessHash = doc_AccessHash d,
      loc_FileReference = doc_FileReference d\<rparr>"

section \<open>Errors\<close>

text \<open>
  Go errors as values. \<open>Canceled\<close> and \<open>DeadlineExceeded\<close> are the two errors of
  package context; \<open>RPC n\<close> is an error returned by the transport (opaque code);
  \<open>Errorf fmt args w\<close> is \<open>xerrors.Errorf(fmt, ...)\<close> with its string arguments and
  the error wrapped by \<open>%w\<close>, if any. A nil error is \<open>None\<close>.
\<close>

datatype error =
    Canceled
  | DeadlineExceeded
  | RPC nat
  | Errorf string "string list" "error option"

section \<open>The outside world: transport calls and the trace of effects\<close>

text \<open>
  The remote operations are opaque calls that return a result or an error. The record
  gives the answer of each call the program makes:
  \<^item> \<open>ResolveAsInputPeer\<close>: \<open>t.sender.Resolve(domain, peer.OnlyUser).AsInputPeer(ctx)\<close>;
  \<^item> \<open>MessagesGetStickerSet\<close>: \<open>t.raw.MessagesGetStickerSet(ctx, short name)\<close>, reduced
    to the Documents of the returned set;
  \<^item> \<open>SendDocument\<close>: \<open>t.sender.To(&resolved).Reply(msgID).Document(ctx, location)\<close>;
  \<^item> \<open>ForwardIDs\<close>: \<open>t.sender.Self().ForwardIDs(&resolved, msgID).Send(ctx)\<close>;
  \<^item> \<open>RevokeMessages\<close>: \<open>t.sender.Self().Revoke().Messages(ctx, msgID)\<close>;
  \<^item> \<open>AccountUpdateStatus\<close>: \<open>t.raw.AccountUpdateStatus(ctx, offline)\<close>, indexed by the
    number of calls already made by the status loop.
\<close>

record transport =
  ResolveAsInputPeer :: "string \<Rightarrow> error + InputPeerClass"
  MessagesGetStickerSet :: "string \<Rightarrow> error + DocumentClass list"
  SendDocument :: "InputPeerUser \<Rightarrow> go_int \<Rightarrow> InputDocumentFileLocation \<Rightarrow> error option"
  ForwardIDs :: "InputPeerUser \<Rightarrow> go_int \<Rightarrow> error option"
  RevokeMessages :: "go_int \<Rightarrow> error option"
  AccountUpdateStatus :: "nat \<Rightarrow> bool \<Rightarrow> error option"

text \<open>The fields passed to the zap logger.\<close>

datatype zap_field =
    zap_String string string
  | zap_Time string go_int
  | zap_Int string go_int
  | zap_Error error

text \<open>
  Everything a function does to the outside, in program order: log entries, remote
  calls, a draw from math/rand, the creation of a ticker (period in nanoseconds).
\<close>

datatype effect =
    Info string "zap_field list"
  | Warn string "zap_field list"
  | Call_ResolveAsInputPeer string
  | Call_MessagesGetStickerSet string
  | Call_SendDocument InputPeerUser go_int InputDocumentFileLocation
  | Call_ForwardIDs InputPeerUser go_int
  | Call_RevokeMessages go_int
  | Call_AccountUpdateStatus bool
  | Call_rand_Int
  | NewTicker nat

section \<open>The Troll and its state store (troll.go)\<close>

text \<open>
  rate.Limiter: the configuration (one event per \<open>every_ns\<close> nanoseconds, burst) and
  the mutable token state.
\<close>

record Limiter =
  every_ns :: nat
  burst :: nat
  tokens :: nat
  last_ns :: nat

text \<open>
  The struct Troll. \<open>resolved\<close> and \<open>sticker\<close> are nil-able pointers; the handles
  raw, sender and logger are the outside world (record \<open>transport\<close> and the trace);
  the two mutexes guard single field reads and writes and have no sequential content.
\<close>

record Troll =
  domain :: string
  stickerSet :: string
  resolved :: "InputPeerUser option"
  sticker :: "Document option"
  limiter :: Limiter

definition Second :: nat where
  "Second = 1000000000"

definition Minute :: nat where
  "Minute = 60 * Second"

definition NewTroll :: "string \<Rightarrow> string \<Rightarrow> Troll" where
  "NewTroll domain_name sset =
     \<lparr>domain = domain_name, stickerSet = sset, resolved = None, sticker = None,
      limiter = \<lparr>every_ns = 15 * Second, burst = 1, tokens = 1, last_ns = 0\<rparr>\<rparr>"

definition checkUserID :: "Troll \<Rightarrow> int64 \<Rightarrow> InputPeerUser \<times> bool" where
  "checkUserID t ident =
     (case resolved t of
        None \<Rightarrow> (InputPeerUser_zero, False)
      | Some r \<Rightarrow>
          if UserID r \<noteq> ident then (InputPeerUser_zero, False)
          else (r, True))"

definition checkSticker :: "Troll \<Rightarrow> Document \<times> bool" where
  "checkSticker t =
     (case sticker t of
        None \<Rightarrow> (Document_zero, False)
      | Some s \<Rightarrow> (s, True))"

section \<open>The message reactor (handle\_message.go)\<close>

definition ignored ::
  "transport \<Rightarrow> InputPeerUser \<Rightarrow> go_int \<Rightarrow> Document \<Rightarrow> effect list \<times> error option" where
  "ignored c res msgID stk =
     ([Info ''Answer sticker'' [zap_Int ''msg_id'' msgID],
       Call_SendDocument res msgID (AsInputDocumentFileLocation stk)],
      SendDocument c res msgID (AsInputDocumentFileLocation stk))"

definition revoke ::
  "transport \<Rightarrow> InputPeerUser \<Rightarrow> go_int \<Rightarrow> effect list \<times> error option" where
  "revoke c res msgID =
     ([Info ''Delete message'' [zap_Int ''msg_id'' msgID],
       Call_ForwardIDs res msgID]
      @ (case ForwardIDs c res msgID of
           Some err \<Rightarrow> [Warn ''Forward failed'' [zap_Error err]]
         | None \<Rightarrow> [])
      @ [Call_RevokeMessages msgID],
      RevokeMessages c msgID)"

text \<open>The entry \<open>t.logger.Info("Got message", text, date)\<close>.\<close>

definition got_message :: "Message_rec \<Rightarrow> effect" where
  "got_message msg =
     Info ''Got message''
       [zap_String ''text'' (MessageText msg), zap_Time ''date'' (Date msg)]"

text \<open>
  \<open>OnNewMessage\<close>. \<open>rnd\<close> is the value \<open>rand.Int()\<close> returns if it is called; Go's
  \<open>%\<close> truncates, which is \<open>smod\<close>. The draw happens only when \<open>checkSticker\<close>
  succeeded (short-circuit \<open>&&\<close>). The result is the trace and the returned error.
  The handler only reads the Troll, so no Troll is returned.
\<close>

definition OnNewMessage ::
  "transport \<Rightarrow> Troll \<Rightarrow> int \<Rightarrow> UpdateNewMessage \<Rightarrow> effect list \<times> error option" where
  "OnNewMessage c t rnd update =
     (case upd_Message update of
        Message msg \<Rightarrow>
          if Out msg then ([], None)
          else
            (case PeerID msg of
               PeerUser uid \<Rightarrow>
                 (case checkUserID t uid of
                    (res, False) \<Rightarrow> ([], None)
                  | (res, True) \<Rightarrow>
                      (case checkSticker t of
                         (stk, True) \<Rightarrow>
                           if rnd smod 2 = 0
                           then (got_message msg # Call_rand_Int
                                   # fst (ignored c res (ID msg) stk),
                                 snd (ignored c res (ID msg) stk))
                           else (got_message msg # Call_rand_Int
                                   # fst (revoke c res (ID msg)),
                                 snd (revoke c res (ID msg)))
                       | (stk, False) \<Rightarrow>
                           (got_message msg # fst (revoke c res (ID msg)),
                            snd (revoke c res (ID msg)))))
             | _ \<Rightarrow> ([], None))
      | _ \<Rightarrow> ([], None))"

section \<open>The setup coordinator (troll.go)\<close>

text \<open>
  Each function returns the Troll after the call, the trace, and the returned error.
  The \<open>%v\<close> and \<open>%T\<close> arguments of the error messages (printed forms of library
  values) are left out of \<open>Errorf\<close>; the string arguments are kept.
\<close>

definition getSticker :: "transport \<Rightarrow> Troll \<Rightarrow> Troll \<times> effect list \<times> error option" where
  "getSticker c t =
     (case MessagesGetStickerSet c (stickerSet t) of
        Inl err \<Rightarrow>
          (t, [Call_MessagesGetStickerSet (stickerSet t)],
           Some (Errorf ''get sticker set %q'' [stickerSet t] None))
      | Inr docs \<Rightarrow>
          if length docs < 1
          then (t, [Call_MessagesGetStickerSet (stickerSet t)],
                Some (Errorf ''sticker set is empty %v'' [] None))
          else
            (case AsNotEmpty (docs ! (length docs - 1)) of
               (stk, False) \<Rightarrow>
                 (t, [Call_MessagesGetStickerSet (stickerSet t)],
                  Some (Errorf ''last sticker is empty document %v'' [] None))
             | (stk, True) \<Rightarrow>
                 (t\<lparr>sticker := stk\<rparr>,
                  [Call_MessagesGetStickerSet (stickerSet t),
                   Info ''Got sticker set'' [zap_String ''stickerset'' (stickerSet t)]],
                  None)))"

definition getUser :: "transport \<Rightarrow> Troll \<Rightarrow> Troll \<times> effect list \<times> error option" where
  "getUser c t =
     (case ResolveAsInputPeer c (domain t) of
        Inl err \<Rightarrow>
          (t, [Call_ResolveAsInputPeer (domain t)],
           Some (Errorf ''resolve %q: %w'' [domain t] (Some err)))
      | Inr p \<Rightarrow>
          (case p of
             InputPeerUserC userPeer \<Rightarrow>
               (t\<lparr>resolved := Some userPeer\<rparr>,
                [Call_ResolveAsInputPeer (domain t),
                 Info ''Got user'' [zap_String ''user'' (domain t)]],
                None)
           | _ \<Rightarrow>
               (t, [Call_ResolveAsInputPeer (domain t)],
                Some (Errorf ''unexpected type %T'' [] None))))"

text \<open>The method \<open>(*Troll).setup\<close>; the bare name is reserved in Isabelle.\<close>

definition Troll_setup :: "transport \<Rightarrow> Troll \<Rightarrow> Troll \<times> effect list \<times> error option" where
  "Troll_setup c t =
     (case getUser c t of
        (t1, tr1, Some err) \<Rightarrow> (t1, tr1, Some (Errorf ''get user: %w'' [] (Some err)))
      | (t1, tr1, None) \<Rightarrow>
          (case getSticker c t1 of
             (t2, tr2, Some err) \<Rightarrow>
               (t2, tr1 @ tr2 @ [Warn ''Get sticker failed'' [zap_Error err]], None)
           | (t2, tr2, None) \<Rightarrow> (t2, tr1 @ tr2, None)))"

section \<open>The status loop (troll.go)\<close>

text \<open>
  One iteration of the loop blocks in \<open>select\<close> until a case is ready and takes one.
  \<open>ctx_Done err\<close>: the receive from \<open>ctx.Done()\<close> was taken; the channel is closed, so
  \<open>ctx.Err()\<close> is the non-nil error \<open>err\<close>. \<open>ticker_C\<close>: a tick was received.
  The loop is run on the list of cases its \<open>select\<close> takes. The result \<open>None\<close> means
  that the loop has not returned (it is blocked in \<open>select\<close> after the last case of the
  list); \<open>Some r\<close> means that it returned \<open>r\<close>. \<open>n\<close> counts the status calls made.
\<close>

datatype select_case = ctx_Done error | ticker_C

fun statusLoop_for ::
  "transport \<Rightarrow> nat \<Rightarrow> select_case list \<Rightarrow> effect list \<times> error option option" where
  "statusLoop_for c n [] = ([], None)"
| "statusLoop_for c n (ctx_Done err # rest) = ([], Some (Some err))"
| "statusLoop_for c n (ticker_C # rest) =
     (Call_AccountUpdateStatus False
        # (case AccountUpdateStatus c n False of
             Some err \<Rightarrow> [Warn ''Got error'' [zap_Error err]]
           | None \<Rightarrow> [])
        @ fst (statusLoop_for c (Suc n) rest),
      snd (statusLoop_for c (Suc n) rest))"

definition statusLoop ::
  "transport \<Rightarrow> select_case list \<Rightarrow> effect list \<times> error option option" where
  "statusLoop c sel =
     (Info ''Run update status loop'' [] # NewTicker (2 * Minute)
        # fst (statusLoop_for c 0 sel),
      snd (statusLoop_for c 0 sel))"

section \<open>The lifecycle orchestrator (troll.go, Run)\<close>

text \<open>
  \<open>Run\<close> starts one goroutine for \<open>setup\<close> and, if asked, one for \<open>statusLoop\<close>
  in an errgroup, receives from \<open>ctx.Done()\<close> of the group's context (the name
  \<open>ctx\<close> is rebound by \<open>errgroup.WithContext\<close>) and returns \<open>g.Wait()\<close>. The
  goroutines interleave, so \<open>Run\<close> is a transition system run on a schedule.
  Packages context and errgroup are external; their steps follow their documentation:
  a derived context is done when its parent is done or when it is cancelled, and then
  \<open>Err()\<close> is non-nil and stays the same; the first non-nil error returned by a
  function given to \<open>g.Go\<close> is stored and cancels the group's context; \<open>g.Wait()\<close>
  blocks until all these functions have returned and returns the stored error.

  The state: \<open>parent_Err\<close> is \<open>Err()\<close> of the context given to \<open>Run\<close> (nil until
  the caller cancels it or its deadline passes); \<open>ctx_Err\<close> is \<open>Err()\<close> of the group's
  derived context; \<open>g_err\<close> is the group's stored first error; \<open>returns\<close> lists what
  the functions passed to \<open>g.Go\<close> returned, in the order they returned;
  \<open>setup_out\<close> is the trace and result of \<open>t.setup(ctx)\<close> once it has returned;
  \<open>loop_on\<close> says that the status loop was started and \<open>loop_sel\<close> lists the cases
  its \<open>select\<close> has taken; \<open>run_pc\<close> is where \<open>Run\<close> itself stands.
\<close>

datatype run_pc = At_ctx_Done | At_Wait | Returned "error option"

record group =
  parent_Err :: "error option"
  ctx_Err :: "error option"
  g_err :: "error option"
  returns :: "error option list"
  troll :: Troll
  setup_out :: "(effect list \<times> error option) option"
  loop_on :: bool
  loop_sel :: "select_case list"
  run_pc :: run_pc

text \<open>
  The steps of a schedule: the context given to \<open>Run\<close> is cancelled or times out;
  the setup goroutine runs to its return; the loop's \<open>select\<close> takes a case; \<open>Run\<close>
  itself takes its next step. A step that is not possible in a state leaves it unchanged.
\<close>

datatype action =
    parent_cancel
  | parent_deadline
  | setup_returns
  | loop_select select_case
  | run_step

text \<open>A parent context that becomes done passes its error to a derived context not yet done.\<close>

definition cancel_parent :: "error \<Rightarrow> group \<Rightarrow> group" where
  "cancel_parent e s =
     (if parent_Err s \<noteq> None then s
      else s\<lparr>parent_Err := Some e,
             ctx_Err := (case ctx_Err s of None \<Rightarrow> Some e | Some e' \<Rightarrow> Some e')\<rparr>)"

text \<open>
  The wrapper errgroup puts around a function given to \<open>g.Go\<close>: when the function
  returns a non-nil error for the first time in the group (\<open>errOnce\<close>), the error is
  stored and the group's context is cancelled.
\<close>

definition errgroup_done :: "error option \<Rightarrow> group \<Rightarrow> group" where
  "errgroup_done r s =
     (case r of
        None \<Rightarrow> s\<lparr>returns := returns s @ [None]\<rparr>
      | Some err \<Rightarrow>
          if g_err s = None
          then s\<lparr>returns := returns s @ [Some err], g_err := Some err,
                 ctx_Err := (case ctx_Err s of None \<Rightarrow> Some Canceled | Some e' \<Rightarrow> Some e')\<rparr>
          else s\<lparr>returns := returns s @ [Some err]\<rparr>)"

text \<open>The two closures of \<open>Run\<close>: a non-nil error is wrapped, nil stays nil.\<close>

definition wrap_setup :: "error option \<Rightarrow> error option" where
  "wrap_setup r = (case r of Some err \<Rightarrow> Some (Errorf ''setup: %w'' [] (Some err)) | None \<Rightarrow> None)"

definition wrap_status_loop :: "error option \<Rightarrow> error option" where
  "wrap_status_loop r =
     (case r of Some err \<Rightarrow> Some (Errorf ''status loop: %w'' [] (Some err)) | None \<Rightarrow> None)"

definition loop_returned :: "transport \<Rightarrow> group \<Rightarrow> bool" where
  "loop_returned c s = (snd (statusLoop c (loop_sel s)) \<noteq> None)"

text \<open>A case of the loop's \<open>select\<close> is ready: Done is closed exactly when Err is non-nil.\<close>

fun select_ready :: "group \<Rightarrow> select_case \<Rightarrow> bool" where
  "select_ready s (ctx_Done e) = (ctx_Err s = Some e)"
| "select_ready s ticker_C = True"

definition group_step :: "transport \<Rightarrow> group \<Rightarrow> action \<Rightarrow> group" where
  "group_step c s a =
     (case a of
        parent_cancel \<Rightarrow> cancel_parent Canceled s
      | parent_deadline \<Rightarrow> cancel_parent DeadlineExceeded s
      | setup_returns \<Rightarrow>
          if setup_out s \<noteq> None then s
          else
            (case Troll_setup c (troll s) of
               (t', tr, r) \<Rightarrow>
                 errgroup_done (wrap_setup r) (s\<lparr>troll := t', setup_out := Some (tr, r)\<rparr>))
      | loop_select sc \<Rightarrow>
          if \<not> loop_on s \<or> loop_returned c s \<or> \<not> select_ready s sc then s
          else
            (case snd (statusLoop c (loop_sel s @ [sc])) of
               None \<Rightarrow> s\<lparr>loop_sel := loop_sel s @ [sc]\<rparr>
             | Some r \<Rightarrow> errgroup_done (wrap_status_loop r) (s\<lparr>loop_sel := loop_sel s @ [sc]\<rparr>))
      | run_step \<Rightarrow>
          (case run_pc s of
             At_ctx_Done \<Rightarrow> if ctx_Err s \<noteq> None then s\<lparr>run_pc := At_Wait\<rparr> else s
           | At_Wait \<Rightarrow>
               if setup_out s \<noteq> None \<and> (if loop_on s then loop_returned c s else True)
               then s\<lparr>run_pc := Returned (g_err s)\<rparr>
               else s
           | Returned r \<Rightarrow> s))"

text \<open>The state after the two \<open>g.Go\<close> calls, with \<open>Run\<close> at \<open><-ctx.Done()\<close>.\<close>

definition Run_start :: "Troll \<Rightarrow> bool \<Rightarrow> group" where
  "Run_start t statusLoop_flag =
     \<lparr>parent_Err = None, ctx_Err = None, g_err = None, returns = [], troll = t,
      setup_out = None, loop_on = statusLoop_flag, loop_sel = [], run_pc = At_ctx_Done\<rparr>"

definition Run :: "transport \<Rightarrow> Troll \<Rightarrow> bool \<Rightarrow> action list \<Rightarrow> group" where
  "Run c t statusLoop_flag sched = foldl (group_step c) (Run_start t statusLoop_flag) sched"

text \<open>The first non-nil error of a list of returned errors, nil if there is none.\<close>

fun first_error :: "error option list \<Rightarrow> error option" where
  "first_error [] = None"
| "first_error (None # rs) = first_error rs"
| "first_error (Some err # rs) = Some err"

section \<open>Concrete inputs used to exercise the theorems\<close>

definition target42 :: InputPeerUser where
  "target42 = \<lparr>UserID = 42, AccessHash = 7\<rparr>"

definition hi_message :: Message_rec where
  "hi_message =
     \<lparr>Out = False, ID = 100, PeerID = PeerUser 42, MessageText = ''hi'',
      Date = 1600000000\<rparr>"

definition hi_update :: UpdateNewMessage where
  "hi_update = \<lparr>upd_Message = Message hi_message, Pts = 1, PtsCount = 1\<rparr>"

definition sticker_a :: Document where
  "sticker_a = \<lparr>doc_ID = 1, doc_AccessHash = 11, doc_FileReference = [1]\<rparr>"

definition sticker_b :: Document where
  "sticker_b = \<lparr>doc_ID = 2, doc_AccessHash = 22, doc_FileReference = [2]\<rparr>"

definition sticker_c :: Document where
  "sticker_c = \<lparr>doc_ID = 3, doc_AccessHash = 33, doc_FileReference = [3]\<rparr>"

text \<open>A transport on which every call succeeds; the sticker set has three documents.\<close>

definition good_transport :: transport where
  "good_transport =
     \<lparr>ResolveAsInputPeer = (\<lambda>d. Inr (InputPeerUserC target42)),
      MessagesGetStickerSet =
        (\<lambda>n. Inr [DocumentC sticker_a, DocumentC sticker_b, DocumentC sticker_c]),
      SendDocument = (\<lambda>p m l. None),
      ForwardIDs = (\<lambda>p m. None),
      RevokeMessages = (\<lambda>m. None),
      AccountUpdateStatus = (\<lambda>n b. None)\<rparr>"

text \<open>A transport on which every call fails; the sticker set would be empty.\<close>

definition bad_transport :: transport where
  "bad_transport =
     \<lparr>ResolveAsInputPeer = (\<lambda>d. Inl (RPC 400)),
      MessagesGetStickerSet = (\<lambda>n. Inr []),
      SendDocument = (\<lambda>p m l. Some (RPC 1)),
      ForwardIDs = (\<lambda>p m. Some (RPC 2)),
      RevokeMessages = (\<lambda>m. Some (RPC 3)),
      AccountUpdateStatus = (\<lambda>n b. Some (RPC 4))\<rparr>"

text \<open>The Troll after a complete setup: target 42 and a cached sticker.\<close>

definition ready_Troll :: Troll where
  "ready_Troll =
     (NewTroll ''durov'' ''trolls'')\<lparr>resolved := Some target42, sticker := Some sticker_c\<rparr>"

section \<open>The failure of the asset step, in the specification's words\<close>

text \<open>
  The specification names three failures of the asset step: the collection fetch fails,
  the collection is empty, or its last item is malformed (an empty document). This
  predicate follows those words on the transport's answer; it is compared with what
  \<open>getSticker\<close> returns.
\<close>

definition sticker_step_fails :: "transport \<Rightarrow> Troll \<Rightarrow> bool" where
  "sticker_step_fails c t =
     (case MessagesGetStickerSet c (stickerSet t) of
        Inl err \<Rightarrow> True
      | Inr docs \<Rightarrow>
          (case docs of
             [] \<Rightarrow> True
           | _ \<Rightarrow> (case last docs of DocumentEmpty i \<Rightarrow> True | DocumentC d \<Rightarrow> False)))"

section \<open>What holds in every state of a run of the orchestrator\<close>

text \<open>
  The facts that every step of \<open>Run\<close> keeps, for a run started on Troll \<open>t\<close>:
  the stored error is the first non-nil returned error; the group's context is done
  exactly when the context given to \<open>Run\<close> is done or an error is stored; \<open>Run\<close>
  is past \<open><-ctx.Done()\<close> only if the group's context is done; the loop took the
  Done case only with the error of the group's context; \<open>setup\<close> ran at most once, on
  \<open>t\<close>; the returned values are the one of the setup closure and the one of the loop
  closure, in the order they returned; and once \<open>Run\<close> has returned, its result is
  the stored error and both goroutines have returned.
\<close>

definition returns_of_setup :: "transport \<Rightarrow> Troll \<Rightarrow> group \<Rightarrow> error option list" where
  "returns_of_setup c t s =
     (if setup_out s = None then [] else [wrap_setup (snd (snd (Troll_setup c t)))])"

definition returns_of_loop :: "transport \<Rightarrow> group \<Rightarrow> error option list" where
  "returns_of_loop c s =
     (if loop_on s
      then (case snd (statusLoop c (loop_sel s)) of
              None \<Rightarrow> []
            | Some r \<Rightarrow> [wrap_status_loop r])
      else [])"

definition Run_inv :: "transport \<Rightarrow> Troll \<Rightarrow> bool \<Rightarrow> group \<Rightarrow> bool" where
  "Run_inv c t statusLoop_flag s =
     (loop_on s = statusLoop_flag
      \<and> g_err s = first_error (returns s)
      \<and> ((ctx_Err s \<noteq> None) = (parent_Err s \<noteq> None \<or> g_err s \<noteq> None))
      \<and> (run_pc s = At_ctx_Done \<or> ctx_Err s \<noteq> None)
      \<and> (\<forall>e. ctx_Done e \<in> set (loop_sel s) \<longrightarrow> ctx_Err s = Some e)
      \<and> (if setup_out s = None then troll s = t
          else setup_out s = Some (snd (Troll_setup c t)) \<and> troll s = fst (Troll_setup c t))
      \<and> (returns s = returns_of_setup c t s @ returns_of_loop c s
          \<or> returns s = returns_of_loop c s @ returns_of_setup c t s)
      \<and> (\<forall>r. run_pc s = Returned r \<longrightarrow>
            r = g_err s \<and> setup_out s \<noteq> None
            \<and> (if statusLoop_flag then loop_returned c s else True)))"

section \<open>Properties of the message reactor\<close>

lemma OnNewMessage_admitted:
  assumes "upd_Message update = Message msg" "\<not> Out msg"
    "PeerID msg = PeerUser (UserID res)" "resolved t = Some res"
  shows "OnNewMessage c t rnd update =
     (case sticker t of
        None \<Rightarrow> (got_message msg # fst (revoke c res (ID msg)), snd (revoke c res (ID msg)))
      | Some stk \<Rightarrow>
          if rnd smod 2 = 0
          then (got_message msg # Call_rand_Int # fst (ignored c res (ID msg) stk),
                snd (ignored c res (ID msg) stk))
          else (got_message msg # Call_rand_Int # fst (revoke c res (ID msg)),
                snd (revoke c res (ID msg))))"
  using assms
  by (simp add: OnNewMessage_def checkUserID_def checkSticker_def
      split: option.splits)

lemma OnNewMessage_rejected:
  assumes "\<not> (\<exists>msg res. upd_Message update = Message msg \<and> \<not> Out msg \<and>
             PeerID msg = PeerUser (UserID res) \<and> resolved t = Some res)"
  shows "OnNewMessage c t rnd update = ([], None)"
  using assms
  by (auto simp: OnNewMessage_def checkUserID_def
      split: MessageClass.splits PeerClass.splits option.splits if_splits)

lemma revoke_trace:
  "fst (revoke c res m) =
     [Info ''Delete message'' [zap_Int ''msg_id'' m], Call_ForwardIDs res m]
     @ (case ForwardIDs c res m of
          Some err \<Rightarrow> [Warn ''Forward failed'' [zap_Error err]]
        | None \<Rightarrow> [])
     @ [Call_RevokeMessages m]"
  by (simp add: revoke_def)

lemma revoke_result: "snd (revoke c res m) = RevokeMessages c m"
  by (simp add: revoke_def)

lemma ignored_trace:
  "fst (ignored c res m stk) =
     [Info ''Answer sticker'' [zap_Int ''msg_id'' m],
      Call_SendDocument res m (AsInputDocumentFileLocation stk)]"
  by (simp add: ignored_def)

lemma ignored_result:
  "snd (ignored c res m stk) = SendDocument c res m (AsInputDocumentFileLocation stk)"
  by (simp add: ignored_def)

lemma hi_update_admitted:
  "upd_Message hi_update = Message hi_message \<and> \<not> Out hi_message \<and>
   PeerID hi_message = PeerUser (UserID target42) \<and> resolved ready_Troll = Some target42"
  by (simp add: hi_update_def hi_message_def ready_Troll_def target42_def)

text \<open>
  C1. An update reaches the log-and-dispatch step of \<open>OnNewMessage\<close> (the entry
  "Got message" is logged, and a reply or a delete call follows) if and only if its
  message is a plain message, not outgoing, from an individual-user peer whose identifier
  is the one of the stored resolved target. In every other case the handler does nothing
  and returns nil.
\<close>

theorem OnNewMessage_admission_filter:
  "((\<exists>fs. Info ''Got message'' fs \<in> set (fst (OnNewMessage c t rnd update))) \<longleftrightarrow>
      (\<exists>msg res. upd_Message update = Message msg \<and> \<not> Out msg \<and>
         PeerID msg = PeerUser (UserID res) \<and> resolved t = Some res))
   \<and> ((\<exists>msg res. upd_Message update = Message msg \<and> \<not> Out msg \<and>
         PeerID msg = PeerUser (UserID res) \<and> resolved t = Some res) \<longrightarrow>
       (\<exists>res m loc. Call_SendDocument res m loc \<in> set (fst (OnNewMessage c t rnd update))) \<or>
       (\<exists>m. Call_RevokeMessages m \<in> set (fst (OnNewMessage c t rnd update))))
   \<and> (\<not> (\<exists>msg res. upd_Message update = Message msg \<and> \<not> Out msg \<and>
         PeerID msg = PeerUser (UserID res) \<and> resolved t = Some res) \<longrightarrow>
       OnNewMessage c t rnd update = ([], None))"
proof (cases "\<exists>msg res. upd_Message update = Message msg \<and> \<not> Out msg \<and>
         PeerID msg = PeerUser (UserID res) \<and> resolved t = Some res")
  case True
  then obtain msg res where a: "upd_Message update = Message msg" "\<not> Out msg"
    "PeerID msg = PeerUser (UserID res)" "resolved t = Some res"
    by blast
  note eq = OnNewMessage_admitted [OF a, of c rnd]
  have "got_message msg \<in> set (fst (OnNewMessage c t rnd update))"
    by (simp add: eq split: option.splits)
  then have "\<exists>fs. Info ''Got message'' fs \<in> set (fst (OnNewMessage c t rnd update))"
    unfolding got_message_def by blast
  moreover have
    "(\<exists>res m loc. Call_SendDocument res m loc \<in> set (fst (OnNewMessage c t rnd update))) \<or>
     (\<exists>m. Call_RevokeMessages m \<in> set (fst (OnNewMessage c t rnd update)))"
    by (auto simp: eq revoke_trace ignored_trace split: option.splits)
  ultimately show ?thesis using True by blast
next
  case False
  then have "OnNewMessage c t rnd update = ([], None)"
    by (rule OnNewMessage_rejected)
  then show ?thesis using False by simp
qed

theorem OnNewMessage_admission_filter_witness:
  "(\<exists>fs. Info ''Got message'' fs
       \<in> set (fst (OnNewMessage good_transport ready_Troll 0 hi_update)))
   \<and> OnNewMessage good_transport (NewTroll ''durov'' ''trolls'') 0 hi_update = ([], None)"
proof -
  have yes: "\<exists>msg res. upd_Message hi_update = Message msg \<and> \<not> Out msg \<and>
         PeerID msg = PeerUser (UserID res) \<and> resolved ready_Troll = Some res"
    using hi_update_admitted by blast
  have no: "\<not> (\<exists>msg res. upd_Message hi_update = Message msg \<and> \<not> Out msg \<and>
         PeerID msg = PeerUser (UserID res) \<and>
         resolved (NewTroll ''durov'' ''trolls'') = Some res)"
    by (simp add: NewTroll_def)
  show ?thesis
    using OnNewMessage_admission_filter [of good_transport ready_Troll 0 hi_update]
      OnNewMessage_admission_filter
        [of good_transport "NewTroll ''durov'' ''trolls''" 0 hi_update]
      yes no
    by blast
qed

lemma rand_Int_parity: "0 \<le> rnd \<Longrightarrow> ((rnd::int) smod 2 = 0) = even rnd"
  by (auto simp: smod_int_alt_def sgn_if abs_if)

text \<open>
  C2. For an admitted event the decision is: when a sticker is cached and the drawn
  integer is even (\<open>rand.Int() % 2 == 0\<close>), the reply with the cached sticker to the
  message's identifier is dispatched, and no forward or delete call is made; in every
  other case the revoke action is dispatched and no reply is sent. When no sticker is
  cached the draw is not even made: the result is the revoke action for every value of
  \<open>rnd\<close>. The distribution of the draw belongs to math/rand and is not modelled: the
  statement holds for every value the draw can take.
\<close>

theorem OnNewMessage_dispatch_decision:
  assumes "upd_Message update = Message msg" and "\<not> Out msg"
    and "PeerID msg = PeerUser (UserID res)" and "resolved t = Some res"
  shows
    "(\<forall>stk. sticker t = Some stk \<and> rnd smod 2 = 0 \<longrightarrow>
        OnNewMessage c t rnd update =
          (got_message msg # Call_rand_Int # fst (ignored c res (ID msg) stk),
           snd (ignored c res (ID msg) stk))
        \<and> Call_SendDocument res (ID msg) (AsInputDocumentFileLocation stk)
            \<in> set (fst (OnNewMessage c t rnd update))
        \<and> (\<forall>m. Call_RevokeMessages m \<notin> set (fst (OnNewMessage c t rnd update)))
        \<and> (\<forall>p m. Call_ForwardIDs p m \<notin> set (fst (OnNewMessage c t rnd update))))
     \<and> (sticker t = None \<or> rnd smod 2 \<noteq> 0 \<longrightarrow>
        OnNewMessage c t rnd update =
          (got_message msg # (if sticker t = None then [] else [Call_rand_Int])
             @ fst (revoke c res (ID msg)),
           snd (revoke c res (ID msg)))
        \<and> Call_RevokeMessages (ID msg) \<in> set (fst (OnNewMessage c t rnd update))
        \<and> (\<forall>p m loc. Call_SendDocument p m loc \<notin> set (fst (OnNewMessage c t rnd update))))
     \<and> (sticker t = None \<longrightarrow>
        (\<forall>rnd'. OnNewMessage c t rnd' update = OnNewMessage c t rnd update)
        \<and> Call_rand_Int \<notin> set (fst (OnNewMessage c t rnd update)))"
proof -
  note eq = OnNewMessage_admitted [OF assms, of c]
  have asset: "\<forall>stk. sticker t = Some stk \<and> rnd smod 2 = 0 \<longrightarrow>
        OnNewMessage c t rnd update =
          (got_message msg # Call_rand_Int # fst (ignored c res (ID msg) stk),
           snd (ignored c res (ID msg) stk))
        \<and> Call_SendDocument res (ID msg) (AsInputDocumentFileLocation stk)
            \<in> set (fst (OnNewMessage c t rnd update))
        \<and> (\<forall>m. Call_RevokeMessages m \<notin> set (fst (OnNewMessage c t rnd update)))
        \<and> (\<forall>p m. Call_ForwardIDs p m \<notin> set (fst (OnNewMessage c t rnd update)))"
    by (simp add: eq ignored_trace got_message_def)
  have other: "sticker t = None \<or> rnd smod 2 \<noteq> 0 \<longrightarrow>
        OnNewMessage c t rnd update =
          (got_message msg # (if sticker t = None then [] else [Call_rand_Int])
             @ fst (revoke c res (ID msg)),
           snd (revoke c res (ID msg)))
        \<and> Call_RevokeMessages (ID msg) \<in> set (fst (OnNewMessage c t rnd update))
        \<and> (\<forall>p m loc. Call_SendDocument p m loc \<notin> set (fst (OnNewMessage c t rnd update)))"
    by (cases "sticker t")
      (auto simp: eq revoke_trace got_message_def split: option.splits)
  have absent: "sticker t = None \<longrightarrow>
        (\<forall>rnd'. OnNewMessage c t rnd' update = OnNewMessage c t rnd update)
        \<and> Call_rand_Int \<notin> set (fst (OnNewMessage c t rnd update))"
    by (auto simp: eq revoke_trace got_message_def split: option.splits)
  from asset other absent show ?thesis by blast
qed


theorem OnNewMessage_dispatch_decision_witness:
  "OnNewMessage good_transport ready_Troll 4 hi_update =
     (got_message hi_message # Call_rand_Int
        # fst (ignored good_transport target42 (ID hi_message) sticker_c),
      snd (ignored good_transport target42 (ID hi_message) sticker_c))
   \<and> OnNewMessage good_transport ready_Troll 5 hi_update =
     (got_message hi_message # [Call_rand_Int]
        @ fst (revoke good_transport target42 (ID hi_message)),
      snd (revoke good_transport target42 (ID hi_message)))
   \<and> Call_RevokeMessages (ID hi_message)
       \<in> set (fst (OnNewMessage good_transport (ready_Troll\<lparr>sticker := None\<rparr>) 4 hi_update))"
proof -
  have a: "upd_Message hi_update = Message hi_message" "\<not> Out hi_message"
    "PeerID hi_message = PeerUser (UserID target42)" "resolved ready_Troll = Some target42"
    using hi_update_admitted by simp_all
  have a': "resolved (ready_Troll\<lparr>sticker := None\<rparr>) = Some target42"
    using a(4) by simp
  have s: "sticker ready_Troll = Some sticker_c"
    by (simp add: ready_Troll_def)
  have s': "sticker (ready_Troll\<lparr>sticker := None\<rparr>) = None"
    by simp
  have r: "(4::int) smod 2 = 0" "(5::int) smod 2 \<noteq> 0"
    by (simp_all add: smod_int_alt_def)
  have "OnNewMessage good_transport ready_Troll 4 hi_update =
     (got_message hi_message # Call_rand_Int
        # fst (ignored good_transport target42 (ID hi_message) sticker_c),
      snd (ignored good_transport target42 (ID hi_message) sticker_c))"
    using OnNewMessage_dispatch_decision [OF a, of 4 good_transport] s r(1) by blast
  moreover have "OnNewMessage good_transport ready_Troll 5 hi_update =
     (got_message hi_message # (if sticker ready_Troll = None then [] else [Call_rand_Int])
        @ fst (revoke good_transport target42 (ID hi_message)),
      snd (revoke good_transport target42 (ID hi_message)))"
    using OnNewMessage_dispatch_decision [OF a, of 5 good_transport] r(2) by blast
  moreover have "Call_RevokeMessages (ID hi_message)
       \<in> set (fst (OnNewMessage good_transport (ready_Troll\<lparr>sticker := None\<rparr>) 4 hi_update))"
    using OnNewMessage_dispatch_decision [OF a(1-3) a', of 4 good_transport] s' by blast
  ultimately show ?thesis using s by simp
qed

text \<open>
  C4. In the revoke action the delete call is made whether or not the forward call
  succeeded: the trace is the forward call, a "Forward failed" warning exactly when the
  forward returned an error, then the delete call. The error returned by \<open>revoke\<close>, and
  by \<open>OnNewMessage\<close> when it dispatches the revoke action, is the result of the delete
  call alone; the forward error is never returned.
\<close>

theorem revoke_returns_delete_error:
  "snd (revoke c res m) = RevokeMessages c m
   \<and> fst (revoke c res m) =
       [Info ''Delete message'' [zap_Int ''msg_id'' m], Call_ForwardIDs res m]
       @ (case ForwardIDs c res m of
            Some err \<Rightarrow> [Warn ''Forward failed'' [zap_Error err]]
          | None \<Rightarrow> [])
       @ [Call_RevokeMessages m]
   \<and> (\<forall>err. ForwardIDs c res m = Some err \<longrightarrow>
        Warn ''Forward failed'' [zap_Error err] \<in> set (fst (revoke c res m))
        \<and> last (fst (revoke c res m)) = Call_RevokeMessages m)
   \<and> (ForwardIDs c res m = None \<longrightarrow>
        (\<forall>msg fs. Warn msg fs \<notin> set (fst (revoke c res m)))
        \<and> snd (revoke c res m) = RevokeMessages c m)
   \<and> (upd_Message update = Message msg \<and> \<not> Out msg
        \<and> PeerID msg = PeerUser (UserID res) \<and> resolved t = Some res
        \<and> (sticker t = None \<or> rnd smod 2 \<noteq> 0) \<longrightarrow>
        snd (OnNewMessage c t rnd update) = RevokeMessages c (ID msg)
        \<and> Call_RevokeMessages (ID msg) \<in> set (fst (OnNewMessage c t rnd update)))"
proof -
  have handler: "upd_Message update = Message msg \<and> \<not> Out msg
        \<and> PeerID msg = PeerUser (UserID res) \<and> resolved t = Some res
        \<and> (sticker t = None \<or> rnd smod 2 \<noteq> 0) \<longrightarrow>
        snd (OnNewMessage c t rnd update) = RevokeMessages c (ID msg)
        \<and> Call_RevokeMessages (ID msg) \<in> set (fst (OnNewMessage c t rnd update))"
  proof (intro impI, elim conjE)
    assume a: "upd_Message update = Message msg" "\<not> Out msg"
      "PeerID msg = PeerUser (UserID res)" "resolved t = Some res"
      and b: "sticker t = None \<or> rnd smod 2 \<noteq> 0"
    show "snd (OnNewMessage c t rnd update) = RevokeMessages c (ID msg)
        \<and> Call_RevokeMessages (ID msg) \<in> set (fst (OnNewMessage c t rnd update))"
      using b
      by (cases "sticker t")
        (auto simp: OnNewMessage_admitted [OF a] revoke_trace revoke_result)
  qed
  have warn: "\<forall>err. ForwardIDs c res m = Some err \<longrightarrow>
        Warn ''Forward failed'' [zap_Error err] \<in> set (fst (revoke c res m))
        \<and> last (fst (revoke c res m)) = Call_RevokeMessages m"
    by (simp add: revoke_trace)
  have quiet: "ForwardIDs c res m = None \<longrightarrow>
        (\<forall>msg fs. Warn msg fs \<notin> set (fst (revoke c res m)))
        \<and> snd (revoke c res m) = RevokeMessages c m"
    by (simp add: revoke_trace revoke_result)
  from handler warn quiet revoke_trace [of c res m] revoke_result [of c res m]
  show ?thesis by blast
qed

theorem revoke_returns_delete_error_witness:
  "snd (revoke bad_transport target42 100) = Some (RPC 3)
   \<and> Warn ''Forward failed'' [zap_Error (RPC 2)] \<in> set (fst (revoke bad_transport target42 100))
   \<and> last (fst (revoke bad_transport target42 100)) = Call_RevokeMessages 100
   \<and> snd (revoke (good_transport\<lparr>RevokeMessages := (\<lambda>m. Some (RPC 3))\<rparr>) target42 100)
       = Some (RPC 3)
   \<and> snd (OnNewMessage bad_transport ready_Troll 5 hi_update) = Some (RPC 3)"
proof -
  have f: "ForwardIDs bad_transport target42 100 = Some (RPC 2)"
    and d: "RevokeMessages bad_transport 100 = Some (RPC 3)"
    "RevokeMessages bad_transport (ID hi_message) = Some (RPC 3)"
    by (simp_all add: bad_transport_def)
  have f': "ForwardIDs (good_transport\<lparr>RevokeMessages := (\<lambda>m. Some (RPC 3))\<rparr>) target42 100 = None"
    and d': "RevokeMessages (good_transport\<lparr>RevokeMessages := (\<lambda>m. Some (RPC 3))\<rparr>) 100 = Some (RPC 3)"
    by (simp_all add: good_transport_def)
  have a: "upd_Message hi_update = Message hi_message \<and> \<not> Out hi_message
        \<and> PeerID hi_message = PeerUser (UserID target42) \<and> resolved ready_Troll = Some target42
        \<and> (sticker ready_Troll = None \<or> (5::int) smod 2 \<noteq> 0)"
    using hi_update_admitted by (simp add: smod_int_alt_def)
  have "snd (revoke bad_transport target42 100) = Some (RPC 3)
     \<and> Warn ''Forward failed'' [zap_Error (RPC 2)] \<in> set (fst (revoke bad_transport target42 100))
     \<and> last (fst (revoke bad_transport target42 100)) = Call_RevokeMessages 100"
    using revoke_returns_delete_error [of bad_transport target42 100] f d(1) by metis
  moreover have "snd (revoke (good_transport\<lparr>RevokeMessages := (\<lambda>m. Some (RPC 3))\<rparr>) target42 100)
       = Some (RPC 3)"
    using revoke_returns_delete_error
      [of "good_transport\<lparr>RevokeMessages := (\<lambda>m. Some (RPC 3))\<rparr>" target42 100] f' d'
    by metis
  moreover have "snd (OnNewMessage bad_transport ready_Troll 5 hi_update) = Some (RPC 3)"
    using revoke_returns_delete_error
      [of bad_transport target42 100 hi_update hi_message ready_Troll 5] a d(2)
    by metis
  ultimately show ?thesis by blast
qed

text \<open>
  C7. \<open>NewTroll\<close> configures a limiter of one event per 15 seconds with burst 1, and
  \<open>OnNewMessage\<close> never reads it: two Trolls that differ only in the limiter give the
  same trace and the same returned error on every update. The handler takes no clock
  reading and leaves the Troll as it is, so two admitted events both dispatch a reply or
  a delete call however close together they arrive, also on a limiter with no token left.
\<close>

theorem OnNewMessage_never_consults_limiter:
  "every_ns (limiter (NewTroll d s)) = 15 * Second \<and> burst (limiter (NewTroll d s)) = 1
   \<and> OnNewMessage c (t\<lparr>limiter := l\<rparr>) rnd update = OnNewMessage c t rnd update
   \<and> (\<forall>t'. t'\<lparr>limiter := limiter t\<rparr> = t \<longrightarrow>
         OnNewMessage c t' rnd update = OnNewMessage c t rnd update)
   \<and> (upd_Message u1 = Message m1 \<and> \<not> Out m1 \<and> PeerID m1 = PeerUser (UserID res)
      \<and> upd_Message u2 = Message m2 \<and> \<not> Out m2 \<and> PeerID m2 = PeerUser (UserID res)
      \<and> resolved t = Some res \<longrightarrow>
        ((\<exists>p m loc. Call_SendDocument p m loc
              \<in> set (fst (OnNewMessage c (t\<lparr>limiter := l\<rparr>) r1 u1)))
          \<or> Call_RevokeMessages (ID m1) \<in> set (fst (OnNewMessage c (t\<lparr>limiter := l\<rparr>) r1 u1)))
        \<and> ((\<exists>p m loc. Call_SendDocument p m loc
              \<in> set (fst (OnNewMessage c (t\<lparr>limiter := l\<rparr>) r2 u2)))
          \<or> Call_RevokeMessages (ID m2) \<in> set (fst (OnNewMessage c (t\<lparr>limiter := l\<rparr>) r2 u2))))"
proof -
  have same: "OnNewMessage c (t\<lparr>limiter := l\<rparr>) rnd update = OnNewMessage c t rnd update"
    for l and t :: Troll and rnd update
  proof -
    have u: "checkUserID (t\<lparr>limiter := l\<rparr>) = checkUserID t"
      by (rule ext) (simp add: checkUserID_def)
    have k: "checkSticker (t\<lparr>limiter := l\<rparr>) = checkSticker t"
      by (simp add: checkSticker_def)
    show ?thesis
      unfolding OnNewMessage_def u k by (rule refl)
  qed
  have pair: "\<forall>t'. t'\<lparr>limiter := limiter t\<rparr> = t \<longrightarrow>
         OnNewMessage c t' rnd update = OnNewMessage c t rnd update"
  proof (intro allI impI)
    fix t' :: Troll
    assume h: "t'\<lparr>limiter := limiter t\<rparr> = t"
    have "OnNewMessage c (t'\<lparr>limiter := limiter t\<rparr>) rnd update = OnNewMessage c t' rnd update"
      by (rule same)
    then show "OnNewMessage c t' rnd update = OnNewMessage c t rnd update"
      by (simp only: h)
  qed
  have one: "(\<exists>p m' loc. Call_SendDocument p m' loc \<in> set (fst (OnNewMessage c t r u)))
          \<or> Call_RevokeMessages (ID m) \<in> set (fst (OnNewMessage c t r u))"
    if "upd_Message u = Message m" "\<not> Out m" "PeerID m = PeerUser (UserID res)"
      "resolved t = Some res" for u m r and t :: Troll
    by (cases "sticker t")
      (auto simp: OnNewMessage_admitted [OF that] revoke_trace ignored_trace)
  have conf: "every_ns (limiter (NewTroll d s)) = 15 * Second"
    "burst (limiter (NewTroll d s)) = 1"
    by (simp_all add: NewTroll_def)
  have two: "upd_Message u1 = Message m1 \<and> \<not> Out m1 \<and> PeerID m1 = PeerUser (UserID res)
      \<and> upd_Message u2 = Message m2 \<and> \<not> Out m2 \<and> PeerID m2 = PeerUser (UserID res)
      \<and> resolved t = Some res \<longrightarrow>
        ((\<exists>p m loc. Call_SendDocument p m loc
              \<in> set (fst (OnNewMessage c (t\<lparr>limiter := l\<rparr>) r1 u1)))
          \<or> Call_RevokeMessages (ID m1) \<in> set (fst (OnNewMessage c (t\<lparr>limiter := l\<rparr>) r1 u1)))
        \<and> ((\<exists>p m loc. Call_SendDocument p m loc
              \<in> set (fst (OnNewMessage c (t\<lparr>limiter := l\<rparr>) r2 u2)))
          \<or> Call_RevokeMessages (ID m2) \<in> set (fst (OnNewMessage c (t\<lparr>limiter := l\<rparr>) r2 u2)))"
  proof (intro impI, elim conjE)
    assume a: "upd_Message u1 = Message m1" "\<not> Out m1" "PeerID m1 = PeerUser (UserID res)"
      and b: "upd_Message u2 = Message m2" "\<not> Out m2" "PeerID m2 = PeerUser (UserID res)"
      and r: "resolved t = Some res"
    have r': "resolved (t\<lparr>limiter := l\<rparr>) = Some res"
      using r by simp
    show "((\<exists>p m loc. Call_SendDocument p m loc
              \<in> set (fst (OnNewMessage c (t\<lparr>limiter := l\<rparr>) r1 u1)))
          \<or> Call_RevokeMessages (ID m1) \<in> set (fst (OnNewMessage c (t\<lparr>limiter := l\<rparr>) r1 u1)))
        \<and> ((\<exists>p m loc. Call_SendDocument p m loc
              \<in> set (fst (OnNewMessage c (t\<lparr>limiter := l\<rparr>) r2 u2)))
          \<or> Call_RevokeMessages (ID m2) \<in> set (fst (OnNewMessage c (t\<lparr>limiter := l\<rparr>) r2 u2)))"
      using one [OF a r'] one [OF b r'] by (rule conjI)
  qed
  from conf same [of l t rnd update] pair two show ?thesis
    by (intro conjI)
qed

theorem OnNewMessage_never_consults_limiter_witness:
  "OnNewMessage good_transport
       (ready_Troll\<lparr>limiter := \<lparr>every_ns = 15 * Second, burst = 1, tokens = 0, last_ns = 5\<rparr>\<rparr>)
       5 hi_update
     = OnNewMessage good_transport ready_Troll 5 hi_update
   \<and> ((\<exists>p m loc. Call_SendDocument p m loc
          \<in> set (fst (OnNewMessage good_transport
                (ready_Troll\<lparr>limiter := \<lparr>every_ns = 15 * Second, burst = 1, tokens = 0, last_ns = 5\<rparr>\<rparr>)
                5 hi_update)))
      \<or> Call_RevokeMessages (ID hi_message)
          \<in> set (fst (OnNewMessage good_transport
                (ready_Troll\<lparr>limiter := \<lparr>every_ns = 15 * Second, burst = 1, tokens = 0, last_ns = 5\<rparr>\<rparr>)
                5 hi_update)))"
  using OnNewMessage_never_consults_limiter
    [where c = good_transport and t = ready_Troll
      and l = "\<lparr>every_ns = 15 * Second, burst = 1, tokens = 0, last_ns = 5\<rparr>"
      and rnd = 5 and update = hi_update and ?u1.0 = hi_update and ?m1.0 = hi_message
      and res = target42 and ?u2.0 = hi_update and ?m2.0 = hi_message
      and ?r1.0 = 5 and ?r2.0 = 5]
    hi_update_admitted
  by blast

section \<open>Properties of the setup coordinator\<close>

lemma getUser_cases:
  "(\<exists>u. ResolveAsInputPeer c (domain t) = Inr (InputPeerUserC u)
        \<and> getUser c t =
            (t\<lparr>resolved := Some u\<rparr>,
             [Call_ResolveAsInputPeer (domain t),
              Info ''Got user'' [zap_String ''user'' (domain t)]],
             None))
   \<or> ((\<nexists>u. ResolveAsInputPeer c (domain t) = Inr (InputPeerUserC u))
        \<and> (\<exists>err. getUser c t = (t, [Call_ResolveAsInputPeer (domain t)], Some err)))"
  by (auto simp: getUser_def split: sum.splits InputPeerClass.splits)

lemma getSticker_cases:
  "(sticker_step_fails c t
      \<and> (\<exists>err. getSticker c t = (t, [Call_MessagesGetStickerSet (stickerSet t)], Some err)))
   \<or> (\<not> sticker_step_fails c t
      \<and> (\<exists>docs d. MessagesGetStickerSet c (stickerSet t) = Inr docs \<and> docs \<noteq> []
            \<and> docs ! (length docs - 1) = DocumentC d
            \<and> getSticker c t =
                (t\<lparr>sticker := Some d\<rparr>,
                 [Call_MessagesGetStickerSet (stickerSet t),
                  Info ''Got sticker set'' [zap_String ''stickerset'' (stickerSet t)]],
                 None)))"
proof (cases "MessagesGetStickerSet c (stickerSet t)")
  case (Inl err)
  then show ?thesis
    by (simp add: getSticker_def sticker_step_fails_def)
next
  case (Inr docs)
  show ?thesis
  proof (cases "docs = []")
    case True
    with Inr show ?thesis
      by (simp add: getSticker_def sticker_step_fails_def)
  next
    case False
    then have l: "last docs = docs ! (length docs - 1)" and n: "\<not> length docs < 1"
      by (simp_all add: last_conv_nth)
    from False obtain x xs where xs: "docs = x # xs"
      by (cases docs) auto
    show ?thesis
    proof (cases "docs ! (length docs - 1)")
      case (DocumentEmpty i)
      with Inr l n xs show ?thesis
        by (simp add: getSticker_def sticker_step_fails_def)
    next
      case (DocumentC d)
      with Inr l n xs show ?thesis
        by (simp add: getSticker_def sticker_step_fails_def)
    qed
  qed
qed

lemma sticker_step_fails_resolved [simp]:
  "sticker_step_fails c (t\<lparr>resolved := r\<rparr>) = sticker_step_fails c t"
  by (simp add: sticker_step_fails_def)

lemma getSticker_error_iff: "(snd (snd (getSticker c t)) \<noteq> None) = sticker_step_fails c t"
  using getSticker_cases [of c t] by auto

lemma getUser_error_iff:
  "(snd (snd (getUser c t)) \<noteq> None) =
     (\<nexists>u. ResolveAsInputPeer c (domain t) = Inr (InputPeerUserC u))"
  using getUser_cases [of c t] by auto

lemma Troll_setup_result:
  "snd (snd (Troll_setup c t)) =
     (case snd (snd (getUser c t)) of
        Some err \<Rightarrow> Some (Errorf ''get user: %w'' [] (Some err))
      | None \<Rightarrow> None)"
  by (simp add: Troll_setup_def split: prod.splits option.splits)

text \<open>
  C3. \<open>setup\<close> returns an error exactly when \<open>getUser\<close>, the identity-resolution
  step, returns one, that is when the resolver does not answer with a user peer; the
  error is the step's error wrapped by "get user". When identity resolution succeeds and
  \<open>getSticker\<close> returns an error, which it does exactly on a failed fetch, an empty
  collection or an empty last document, \<open>setup\<close> returns nil, its last effect is the
  warning "Get sticker failed" carrying that error, and the cached sticker is the one
  held before: absent if it was absent.
\<close>

theorem Troll_setup_error_iff_identity_resolution_fails:
  "((snd (snd (Troll_setup c t)) \<noteq> None) \<longleftrightarrow> (snd (snd (getUser c t)) \<noteq> None))
   \<and> ((snd (snd (getUser c t)) \<noteq> None) \<longleftrightarrow>
        (\<nexists>u. ResolveAsInputPeer c (domain t) = Inr (InputPeerUserC u)))
   \<and> (\<forall>err. snd (snd (getUser c t)) = Some err \<longrightarrow>
        snd (snd (Troll_setup c t)) = Some (Errorf ''get user: %w'' [] (Some err)))
   \<and> ((snd (snd (getSticker c (fst (getUser c t)))) \<noteq> None) \<longleftrightarrow> sticker_step_fails c t)
   \<and> (\<forall>err. snd (snd (getUser c t)) = None
          \<and> snd (snd (getSticker c (fst (getUser c t)))) = Some err \<longrightarrow>
        snd (snd (Troll_setup c t)) = None
        \<and> last (fst (snd (Troll_setup c t))) = Warn ''Get sticker failed'' [zap_Error err]
        \<and> sticker (fst (Troll_setup c t)) = sticker t
        \<and> (sticker t = None \<longrightarrow> sticker (fst (Troll_setup c t)) = None))"
proof -
  have 1: "(snd (snd (Troll_setup c t)) \<noteq> None) \<longleftrightarrow> (snd (snd (getUser c t)) \<noteq> None)"
    by (simp add: Troll_setup_result split: option.splits)
  have 3: "\<forall>err. snd (snd (getUser c t)) = Some err \<longrightarrow>
        snd (snd (Troll_setup c t)) = Some (Errorf ''get user: %w'' [] (Some err))"
    by (simp add: Troll_setup_result)
  have 4: "(snd (snd (getSticker c (fst (getUser c t)))) \<noteq> None) \<longleftrightarrow> sticker_step_fails c t"
    using getUser_cases [of c t] getSticker_error_iff [of c "fst (getUser c t)"]
    by auto
  have 5: "\<forall>err. snd (snd (getUser c t)) = None
          \<and> snd (snd (getSticker c (fst (getUser c t)))) = Some err \<longrightarrow>
        snd (snd (Troll_setup c t)) = None
        \<and> last (fst (snd (Troll_setup c t))) = Warn ''Get sticker failed'' [zap_Error err]
        \<and> sticker (fst (Troll_setup c t)) = sticker t
        \<and> (sticker t = None \<longrightarrow> sticker (fst (Troll_setup c t)) = None)"
  proof (intro allI impI, elim conjE)
    fix err
    assume ok: "snd (snd (getUser c t)) = None"
      and f: "snd (snd (getSticker c (fst (getUser c t)))) = Some err"
    from ok getUser_cases [of c t] obtain u where
      u: "getUser c t =
            (t\<lparr>resolved := Some u\<rparr>,
             [Call_ResolveAsInputPeer (domain t),
              Info ''Got user'' [zap_String ''user'' (domain t)]],
             None)"
      by auto
    from f u have f': "snd (snd (getSticker c (t\<lparr>resolved := Some u\<rparr>))) = Some err"
      by simp
    with getSticker_cases [of c "t\<lparr>resolved := Some u\<rparr>"] have
      g: "getSticker c (t\<lparr>resolved := Some u\<rparr>) =
            (t\<lparr>resolved := Some u\<rparr>, [Call_MessagesGetStickerSet (stickerSet t)], Some err)"
      by auto
    show "snd (snd (Troll_setup c t)) = None
        \<and> last (fst (snd (Troll_setup c t))) = Warn ''Get sticker failed'' [zap_Error err]
        \<and> sticker (fst (Troll_setup c t)) = sticker t
        \<and> (sticker t = None \<longrightarrow> sticker (fst (Troll_setup c t)) = None)"
      by (simp add: Troll_setup_def u g)
  qed
  from 1 getUser_error_iff [of c t] 3 4 5 show ?thesis
    by (intro conjI)
qed

theorem Troll_setup_error_iff_identity_resolution_fails_witness:
  "snd (snd (Troll_setup bad_transport (NewTroll ''durov'' ''trolls''))) \<noteq> None
   \<and> snd (snd (Troll_setup
        (bad_transport\<lparr>ResolveAsInputPeer := (\<lambda>d. Inr (InputPeerUserC target42))\<rparr>)
        (NewTroll ''durov'' ''trolls''))) = None
   \<and> sticker (fst (Troll_setup
        (bad_transport\<lparr>ResolveAsInputPeer := (\<lambda>d. Inr (InputPeerUserC target42))\<rparr>)
        (NewTroll ''durov'' ''trolls''))) = None"
proof -
  let ?t = "NewTroll ''durov'' ''trolls''"
  let ?c = "bad_transport\<lparr>ResolveAsInputPeer := (\<lambda>d. Inr (InputPeerUserC target42))\<rparr>"
  have bad: "\<nexists>u. ResolveAsInputPeer bad_transport (domain ?t) = Inr (InputPeerUserC u)"
    by (simp add: bad_transport_def)
  have good: "\<not> (\<nexists>u. ResolveAsInputPeer ?c (domain ?t) = Inr (InputPeerUserC u))"
    by simp
  have fails: "sticker_step_fails ?c ?t"
    by (simp add: sticker_step_fails_def bad_transport_def)
  have absent: "sticker ?t = None"
    by (simp add: NewTroll_def)
  note bad_inst = Troll_setup_error_iff_identity_resolution_fails [of bad_transport ?t]
  note inst = Troll_setup_error_iff_identity_resolution_fails [of ?c ?t]
  have "snd (snd (Troll_setup bad_transport ?t)) \<noteq> None"
    using bad_inst bad by blast
  moreover have ok: "snd (snd (getUser ?c ?t)) = None"
    using inst good by blast
  moreover have "snd (snd (getSticker ?c (fst (getUser ?c ?t)))) \<noteq> None"
    using inst fails by blast
  then obtain err where "snd (snd (getSticker ?c (fst (getUser ?c ?t)))) = Some err"
    by blast
  with ok have "snd (snd (Troll_setup ?c ?t)) = None \<and> sticker (fst (Troll_setup ?c ?t)) = None"
    using inst absent by blast
  ultimately show ?thesis by blast
qed

lemma Troll_setup_fetches_iff_resolved:
  "(Call_MessagesGetStickerSet (stickerSet t) \<in> set (fst (snd (Troll_setup c t)))) =
     (\<exists>u. ResolveAsInputPeer c (domain t) = Inr (InputPeerUserC u))"
proof (cases "\<exists>u. ResolveAsInputPeer c (domain t) = Inr (InputPeerUserC u)")
  case True
  with getUser_cases [of c t] obtain u where
    u: "getUser c t =
          (t\<lparr>resolved := Some u\<rparr>,
           [Call_ResolveAsInputPeer (domain t),
            Info ''Got user'' [zap_String ''user'' (domain t)]],
           None)"
    by auto
  from getSticker_cases [of c "t\<lparr>resolved := Some u\<rparr>"]
  have "Call_MessagesGetStickerSet (stickerSet t)
      \<in> set (fst (snd (getSticker c (t\<lparr>resolved := Some u\<rparr>))))"
    by auto
  then have "Call_MessagesGetStickerSet (stickerSet t) \<in> set (fst (snd (Troll_setup c t)))"
    by (auto simp: Troll_setup_def u split: prod.splits option.splits)
  with True show ?thesis by simp
next
  case False
  with getUser_cases [of c t] obtain err where
    "getUser c t = (t, [Call_ResolveAsInputPeer (domain t)], Some err)"
    by auto
  then have "fst (snd (Troll_setup c t)) = [Call_ResolveAsInputPeer (domain t)]"
    by (simp add: Troll_setup_def)
  with False show ?thesis by simp
qed

text \<open>
  C6. \<open>setup\<close> makes the sticker-set fetch exactly when the resolver answers with a
  user peer (lemma \<open>Troll_setup_fetches_iff_resolved\<close>). When it does, and the fetch
  returns a non-empty collection whose last item, at index length - 1, is a non-empty
  document, \<open>setup\<close> returns nil with that document as the cached sticker, whatever
  the Troll held before and whatever the name of the sticker set: the result of
  \<open>setup\<close> is given in full. For a collection of three items the cached sticker is the
  item at index 2.
\<close>

theorem Troll_setup_caches_last_document:
  assumes "ResolveAsInputPeer c (domain t) = Inr (InputPeerUserC u)"
    and "MessagesGetStickerSet c (stickerSet t) = Inr docs"
    and "docs \<noteq> []"
    and "docs ! (length docs - 1) = DocumentC d"
  shows "Troll_setup c t =
       (t\<lparr>resolved := Some u, sticker := Some d\<rparr>,
        [Call_ResolveAsInputPeer (domain t),
         Info ''Got user'' [zap_String ''user'' (domain t)],
         Call_MessagesGetStickerSet (stickerSet t),
         Info ''Got sticker set'' [zap_String ''stickerset'' (stickerSet t)]],
        None)
     \<and> sticker (fst (Troll_setup c t)) = Some d
     \<and> snd (snd (Troll_setup c t)) = None
     \<and> Call_MessagesGetStickerSet (stickerSet t) \<in> set (fst (snd (Troll_setup c t)))
     \<and> sticker (fst (getSticker c t)) = Some d
     \<and> DocumentC d = last docs
     \<and> (length docs = 3 \<longrightarrow> docs ! 2 = DocumentC d)"
proof -
  have l: "last docs = docs ! (length docs - 1)"
    using assms(3) by (simp add: last_conv_nth)
  have n: "\<not> length docs < 1"
    using assms(3) by simp
  have g: "getSticker c t' =
      (t'\<lparr>sticker := Some d\<rparr>,
       [Call_MessagesGetStickerSet (stickerSet t'),
        Info ''Got sticker set'' [zap_String ''stickerset'' (stickerSet t')]],
       None)"
    if "stickerSet t' = stickerSet t" for t'
    using that assms(2,4) n by (simp add: getSticker_def)
  have u: "getUser c t =
          (t\<lparr>resolved := Some u\<rparr>,
           [Call_ResolveAsInputPeer (domain t),
            Info ''Got user'' [zap_String ''user'' (domain t)]],
           None)"
    using assms(1) by (simp add: getUser_def)
  have full: "Troll_setup c t =
       (t\<lparr>resolved := Some u, sticker := Some d\<rparr>,
        [Call_ResolveAsInputPeer (domain t),
         Info ''Got user'' [zap_String ''user'' (domain t)],
         Call_MessagesGetStickerSet (stickerSet t),
         Info ''Got sticker set'' [zap_String ''stickerset'' (stickerSet t)]],
        None)"
    by (simp add: Troll_setup_def u g)
  have "sticker (fst (getSticker c t)) = Some d"
    by (simp add: g)
  moreover have "length docs = 3 \<longrightarrow> docs ! 2 = DocumentC d"
    using assms(4) by auto
  moreover have "DocumentC d = last docs"
    using l assms(4) by simp
  ultimately show ?thesis
    unfolding full by simp
qed

theorem Troll_setup_caches_last_document_witness:
  "sticker (fst (Troll_setup good_transport
      ((NewTroll ''durov'' ''cats'')\<lparr>sticker := Some sticker_a\<rparr>))) = Some sticker_c
   \<and> snd (snd (Troll_setup good_transport
      ((NewTroll ''durov'' ''cats'')\<lparr>sticker := Some sticker_a\<rparr>))) = None
   \<and> Call_MessagesGetStickerSet ''cats''
       \<in> set (fst (snd (Troll_setup good_transport
            ((NewTroll ''durov'' ''cats'')\<lparr>sticker := Some sticker_a\<rparr>))))
   \<and> [DocumentC sticker_a, DocumentC sticker_b, DocumentC sticker_c] ! 2 = DocumentC sticker_c"
proof -
  let ?t = "(NewTroll ''durov'' ''cats'')\<lparr>sticker := Some sticker_a\<rparr>"
  let ?docs = "[DocumentC sticker_a, DocumentC sticker_b, DocumentC sticker_c]"
  have 1: "ResolveAsInputPeer good_transport (domain ?t) = Inr (InputPeerUserC target42)"
    by (simp add: good_transport_def)
  have 2: "MessagesGetStickerSet good_transport (stickerSet ?t) = Inr ?docs"
    by (simp add: good_transport_def)
  have 3: "?docs \<noteq> []"
    by simp
  have 4: "?docs ! (length ?docs - 1) = DocumentC sticker_c"
    by simp
  have n: "stickerSet ?t = ''cats''"
    by (simp add: NewTroll_def)
  have "sticker (fst (Troll_setup good_transport ?t)) = Some sticker_c
     \<and> snd (snd (Troll_setup good_transport ?t)) = None
     \<and> Call_MessagesGetStickerSet (stickerSet ?t)
         \<in> set (fst (snd (Troll_setup good_transport ?t)))
     \<and> (length ?docs = 3 \<longrightarrow> ?docs ! 2 = DocumentC sticker_c)"
    using Troll_setup_caches_last_document [OF 1 2 3 4] by blast
  then show ?thesis
    unfolding n by simp
qed

text \<open>
  C10. A setup step writes the store only when it succeeds. When \<open>getUser\<close> returns
  an error the Troll is returned as it was, so the resolved target keeps its value; when
  \<open>getSticker\<close> returns an error, which happens exactly on a failed fetch, an empty
  collection or an empty last document, the Troll is returned as it was, so the cached
  sticker keeps its value. On success each step writes its own field and nothing else.
\<close>

theorem setup_steps_write_only_on_success:
  "(snd (snd (getUser c t)) \<noteq> None \<longrightarrow>
      fst (getUser c t) = t \<and> resolved (fst (getUser c t)) = resolved t)
   \<and> (snd (snd (getSticker c t)) \<noteq> None \<longrightarrow>
      fst (getSticker c t) = t \<and> sticker (fst (getSticker c t)) = sticker t)
   \<and> ((snd (snd (getSticker c t)) \<noteq> None) \<longleftrightarrow> sticker_step_fails c t)
   \<and> (snd (snd (getUser c t)) = None \<longrightarrow>
      (\<exists>u. fst (getUser c t) = t\<lparr>resolved := Some u\<rparr>))
   \<and> (snd (snd (getSticker c t)) = None \<longrightarrow>
      (\<exists>d. fst (getSticker c t) = t\<lparr>sticker := Some d\<rparr>))"
proof -
  have 1: "snd (snd (getUser c t)) \<noteq> None \<longrightarrow>
      fst (getUser c t) = t \<and> resolved (fst (getUser c t)) = resolved t"
    using getUser_cases [of c t] by auto
  have 2: "snd (snd (getSticker c t)) \<noteq> None \<longrightarrow>
      fst (getSticker c t) = t \<and> sticker (fst (getSticker c t)) = sticker t"
    using getSticker_cases [of c t] by auto
  have 4: "snd (snd (getUser c t)) = None \<longrightarrow>
      (\<exists>u. fst (getUser c t) = t\<lparr>resolved := Some u\<rparr>)"
    using getUser_cases [of c t] by auto
  have 5: "snd (snd (getSticker c t)) = None \<longrightarrow>
      (\<exists>d. fst (getSticker c t) = t\<lparr>sticker := Some d\<rparr>)"
    using getSticker_cases [of c t] by auto
  from 1 2 getSticker_error_iff [of c t] 4 5 show ?thesis
    by (intro conjI)
qed

theorem setup_steps_write_only_on_success_witness:
  "resolved (fst (getUser bad_transport ready_Troll)) = Some target42
   \<and> sticker (fst (getSticker bad_transport ready_Troll)) = Some sticker_c
   \<and> (\<exists>u. fst (getUser good_transport ready_Troll) = ready_Troll\<lparr>resolved := Some u\<rparr>)
   \<and> (\<exists>d. fst (getSticker good_transport ready_Troll) = ready_Troll\<lparr>sticker := Some d\<rparr>)"
proof -
  have u: "snd (snd (getUser bad_transport ready_Troll)) \<noteq> None"
    by (simp add: getUser_def bad_transport_def)
  have s: "snd (snd (getSticker bad_transport ready_Troll)) \<noteq> None"
    by (simp add: getSticker_def bad_transport_def)
  have u': "snd (snd (getUser good_transport ready_Troll)) = None"
    by (simp add: getUser_def good_transport_def)
  have s': "snd (snd (getSticker good_transport ready_Troll)) = None"
    by (simp add: getSticker_def good_transport_def)
  have r: "resolved ready_Troll = Some target42" "sticker ready_Troll = Some sticker_c"
    by (simp_all add: ready_Troll_def)
  have "resolved (fst (getUser bad_transport ready_Troll)) = Some target42
     \<and> sticker (fst (getSticker bad_transport ready_Troll)) = Some sticker_c"
    using setup_steps_write_only_on_success [of bad_transport ready_Troll] u s r by simp
  moreover have "(\<exists>u. fst (getUser good_transport ready_Troll) = ready_Troll\<lparr>resolved := Some u\<rparr>)
     \<and> (\<exists>d. fst (getSticker good_transport ready_Troll) = ready_Troll\<lparr>sticker := Some d\<rparr>)"
    using setup_steps_write_only_on_success [of good_transport ready_Troll] u' s' by blast
  ultimately show ?thesis by blast
qed

section \<open>Properties of the status loop\<close>

lemma statusLoop_for_result:
  "snd (statusLoop_for c n sel) =
     (case dropWhile (\<lambda>x. x = ticker_C) sel of
        [] \<Rightarrow> None
      | ctx_Done err # rest \<Rightarrow> Some (Some err)
      | ticker_C # rest \<Rightarrow> None)"
  by (induction c n sel rule: statusLoop_for.induct) simp_all

lemma statusLoop_for_calls:
  "length (filter (\<lambda>e. e = Call_AccountUpdateStatus False) (fst (statusLoop_for c n sel))) =
     length (takeWhile (\<lambda>x. x = ticker_C) sel)"
  by (induction c n sel rule: statusLoop_for.induct) (simp_all split: option.splits)

lemma statusLoop_for_warns:
  "k < length (takeWhile (\<lambda>x. x = ticker_C) sel) \<Longrightarrow>
   AccountUpdateStatus c (n + k) False = Some err \<Longrightarrow>
   Warn ''Got error'' [zap_Error err] \<in> set (fst (statusLoop_for c n sel))"
proof (induction c n sel arbitrary: k rule: statusLoop_for.induct)
  case (1 c n)
  then show ?case by simp
next
  case (2 c n err' rest)
  then show ?case by simp
next
  case (3 c n rest)
  show ?case
  proof (cases k)
    case 0
    with 3 show ?thesis by simp
  next
    case (Suc j)
    with 3 have "Warn ''Got error'' [zap_Error err] \<in> set (fst (statusLoop_for c (Suc n) rest))"
      by simp
    then show ?thesis by simp
  qed
qed

lemma statusLoop_for_quiet:
  "\<forall>k. AccountUpdateStatus c k False = None \<Longrightarrow>
   \<forall>msg fs. Warn msg fs \<notin> set (fst (statusLoop_for c n sel))"
  by (induction c n sel rule: statusLoop_for.induct) simp_all

lemma statusLoop_for_returns_iff:
  "(snd (statusLoop_for c n sel) \<noteq> None) = (\<exists>err. ctx_Done err \<in> set sel)"
  by (induction c n sel rule: statusLoop_for.induct) auto

text \<open>
  C8. The loop creates a ticker of period two minutes (120 seconds, in nanoseconds) and
  makes one \<open>AccountUpdateStatus(ctx, false)\<close> call for each tick it receives. A call
  that fails is logged as the warning "Got error" and the loop goes on: whether and what
  the loop returns does not depend on the answers of the transport. The loop returns
  exactly when its \<open>select\<close> takes the \<open>ctx.Done()\<close> case, and it then returns
  \<open>ctx.Err()\<close>; as long as only ticks are taken it has not returned.
\<close>

theorem statusLoop_runs_until_cancelled:
  "(\<exists>rest. fst (statusLoop c sel) =
        Info ''Run update status loop'' [] # NewTicker (2 * Minute) # rest)
   \<and> 2 * Minute = 120 * Second
   \<and> length (filter (\<lambda>e. e = Call_AccountUpdateStatus False) (fst (statusLoop c sel))) =
       length (takeWhile (\<lambda>x. x = ticker_C) sel)
   \<and> (\<forall>k err. k < length (takeWhile (\<lambda>x. x = ticker_C) sel)
         \<and> AccountUpdateStatus c k False = Some err \<longrightarrow>
         Warn ''Got error'' [zap_Error err] \<in> set (fst (statusLoop c sel)))
   \<and> snd (statusLoop c sel) = snd (statusLoop c' sel)
   \<and> ((snd (statusLoop c sel) \<noteq> None) \<longleftrightarrow> (\<exists>err. ctx_Done err \<in> set sel))
   \<and> (\<forall>r. snd (statusLoop c sel) = Some r \<longrightarrow>
         (\<exists>err rest. r = Some err
            \<and> dropWhile (\<lambda>x. x = ticker_C) sel = ctx_Done err # rest))
   \<and> snd (statusLoop c (replicate n ticker_C)) = None
   \<and> snd (statusLoop c (replicate n ticker_C @ ctx_Done e # later)) = Some (Some e)"
proof -
  have 1: "\<exists>rest. fst (statusLoop c sel) =
        Info ''Run update status loop'' [] # NewTicker (2 * Minute) # rest"
    by (simp add: statusLoop_def)
  have 2: "2 * Minute = 120 * Second"
    by (simp add: Minute_def)
  have 3: "length (filter (\<lambda>e. e = Call_AccountUpdateStatus False) (fst (statusLoop c sel))) =
       length (takeWhile (\<lambda>x. x = ticker_C) sel)"
    by (simp add: statusLoop_def statusLoop_for_calls)
  have 4: "\<forall>k err. k < length (takeWhile (\<lambda>x. x = ticker_C) sel)
         \<and> AccountUpdateStatus c k False = Some err \<longrightarrow>
         Warn ''Got error'' [zap_Error err] \<in> set (fst (statusLoop c sel))"
    using statusLoop_for_warns [of _ sel c 0] by (auto simp: statusLoop_def)
  have 5: "snd (statusLoop c sel) = snd (statusLoop c' sel)"
    by (simp add: statusLoop_def statusLoop_for_result)
  have 6: "(snd (statusLoop c sel) \<noteq> None) \<longleftrightarrow> (\<exists>err. ctx_Done err \<in> set sel)"
    using statusLoop_for_returns_iff [of c 0 sel] by (simp add: statusLoop_def)
  have 7: "\<forall>r. snd (statusLoop c sel) = Some r \<longrightarrow>
         (\<exists>err rest. r = Some err
            \<and> dropWhile (\<lambda>x. x = ticker_C) sel = ctx_Done err # rest)"
    by (auto simp: statusLoop_def statusLoop_for_result split: list.splits select_case.splits)
  have 8: "snd (statusLoop c (replicate n ticker_C)) = None"
    by (simp add: statusLoop_def statusLoop_for_result)
  have 9: "snd (statusLoop c (replicate n ticker_C @ ctx_Done e # later)) = Some (Some e)"
    by (simp add: statusLoop_def statusLoop_for_result dropWhile_append)
  from 1 2 3 4 5 6 7 8 9 show ?thesis
    by (intro conjI)
qed

theorem statusLoop_runs_until_cancelled_witness:
  "snd (statusLoop bad_transport [ticker_C, ticker_C, ctx_Done Canceled, ticker_C])
     = Some (Some Canceled)
   \<and> Warn ''Got error'' [zap_Error (RPC 4)]
       \<in> set (fst (statusLoop bad_transport [ticker_C, ticker_C, ctx_Done Canceled, ticker_C]))
   \<and> length (filter (\<lambda>e. e = Call_AccountUpdateStatus False)
        (fst (statusLoop bad_transport [ticker_C, ticker_C, ctx_Done Canceled, ticker_C]))) = 2
   \<and> snd (statusLoop bad_transport [ticker_C, ticker_C]) = None"
proof -
  let ?sel = "[ticker_C, ticker_C, ctx_Done Canceled, ticker_C]"
  have d: "dropWhile (\<lambda>x. x = ticker_C) ?sel = [ctx_Done Canceled, ticker_C]"
    and t: "length (takeWhile (\<lambda>x. x = ticker_C) ?sel) = 2"
    and m: "ctx_Done Canceled \<in> set ?sel"
    and n: "\<not> (\<exists>err. ctx_Done err \<in> set [ticker_C, ticker_C])"
    by simp_all
  have f: "(1::nat) < length (takeWhile (\<lambda>x. x = ticker_C) ?sel)
      \<and> AccountUpdateStatus bad_transport 1 False = Some (RPC 4)"
    by (simp add: bad_transport_def)
  note inst = statusLoop_runs_until_cancelled
    [where c = bad_transport and c' = bad_transport and sel = ?sel and n = 0]
  have "snd (statusLoop bad_transport ?sel) \<noteq> None"
    using inst m by blast
  then obtain r where r: "snd (statusLoop bad_transport ?sel) = Some r"
    by blast
  with inst d have "r = Some Canceled"
    by (metis list.inject select_case.inject)
  with r have "snd (statusLoop bad_transport ?sel) = Some (Some Canceled)"
    by simp
  moreover have "Warn ''Got error'' [zap_Error (RPC 4)] \<in> set (fst (statusLoop bad_transport ?sel))"
    using inst f by blast
  moreover have "length (filter (\<lambda>e. e = Call_AccountUpdateStatus False)
        (fst (statusLoop bad_transport ?sel))) = 2"
    using inst t by metis
  moreover have "snd (statusLoop bad_transport [ticker_C, ticker_C]) = None"
    using statusLoop_runs_until_cancelled
      [where c = bad_transport and c' = bad_transport and sel = "[ticker_C, ticker_C]" and n = 0]
      n by blast
  ultimately show ?thesis by blast
qed

section \<open>Properties of the lifecycle orchestrator\<close>

lemma first_error_snoc:
  "first_error (rs @ [r]) = (case first_error rs of Some err \<Rightarrow> Some err | None \<Rightarrow> r)"
proof (induction rs rule: first_error.induct)
  case 1
  then show ?case by (cases r) simp_all
qed simp_all

lemma first_error_None_iff: "(first_error rs = None) = (\<forall>r \<in> set rs. r = None)"
  by (induction rs rule: first_error.induct) simp_all

lemma Run_snoc: "Run c t flag (sched @ [a]) = group_step c (Run c t flag sched) a"
  by (simp add: Run_def)

lemma Run_append:
  "Run c t flag (sched @ more_steps) = foldl (group_step c) (Run c t flag sched) more_steps"
  by (simp add: Run_def)

subsection \<open>The fields after each primitive\<close>

lemma errgroup_done_fields:
  "returns (errgroup_done x s) = returns s @ [x]"
  "g_err (errgroup_done x s) = (case g_err s of Some e \<Rightarrow> Some e | None \<Rightarrow> x)"
  "ctx_Err (errgroup_done x s) =
     (case ctx_Err s of
        Some e \<Rightarrow> Some e
      | None \<Rightarrow> if g_err s = None \<and> x \<noteq> None then Some Canceled else None)"
  "parent_Err (errgroup_done x s) = parent_Err s"
  "troll (errgroup_done x s) = troll s"
  "setup_out (errgroup_done x s) = setup_out s"
  "loop_on (errgroup_done x s) = loop_on s"
  "loop_sel (errgroup_done x s) = loop_sel s"
  "run_pc (errgroup_done x s) = run_pc s"
  by (auto simp: errgroup_done_def split: option.splits)

lemma cancel_parent_fields:
  "parent_Err (cancel_parent e s) = (case parent_Err s of Some e' \<Rightarrow> Some e' | None \<Rightarrow> Some e)"
  "ctx_Err (cancel_parent e s) = (case ctx_Err s of Some e' \<Rightarrow> Some e' | None \<Rightarrow>
      (case parent_Err s of Some e' \<Rightarrow> None | None \<Rightarrow> Some e))"
  "returns (cancel_parent e s) = returns s"
  "g_err (cancel_parent e s) = g_err s"
  "troll (cancel_parent e s) = troll s"
  "setup_out (cancel_parent e s) = setup_out s"
  "loop_on (cancel_parent e s) = loop_on s"
  "loop_sel (cancel_parent e s) = loop_sel s"
  "run_pc (cancel_parent e s) = run_pc s"
  by (auto simp: cancel_parent_def split: option.splits)

lemma returns_of_setup_frame:
  "setup_out s' = setup_out s \<Longrightarrow> returns_of_setup c t s' = returns_of_setup c t s"
  by (simp add: returns_of_setup_def)

lemma returns_of_loop_frame:
  "loop_on s' = loop_on s \<Longrightarrow> loop_sel s' = loop_sel s \<Longrightarrow>
   returns_of_loop c s' = returns_of_loop c s"
  by (simp add: returns_of_loop_def)

lemma loop_returned_frame:
  "loop_sel s' = loop_sel s \<Longrightarrow> loop_returned c s' = loop_returned c s"
  by (simp add: loop_returned_def)

subsection \<open>The invariant, taken apart and put together\<close>

lemma Run_invD:
  assumes "Run_inv c t flag s"
  shows "loop_on s = flag"
    and "g_err s = first_error (returns s)"
    and "(ctx_Err s \<noteq> None) = (parent_Err s \<noteq> None \<or> g_err s \<noteq> None)"
    and "run_pc s = At_ctx_Done \<or> ctx_Err s \<noteq> None"
    and "\<And>e. ctx_Done e \<in> set (loop_sel s) \<Longrightarrow> ctx_Err s = Some e"
    and "setup_out s = None \<Longrightarrow> troll s = t"
    and "setup_out s \<noteq> None \<Longrightarrow>
           setup_out s = Some (snd (Troll_setup c t)) \<and> troll s = fst (Troll_setup c t)"
    and "returns s = returns_of_setup c t s @ returns_of_loop c s
          \<or> returns s = returns_of_loop c s @ returns_of_setup c t s"
    and "\<And>r. run_pc s = Returned r \<Longrightarrow>
           r = g_err s \<and> setup_out s \<noteq> None \<and> (if flag then loop_returned c s else True)"
proof -
  from assms show "loop_on s = flag"
    unfolding Run_inv_def by (elim conjE)
  from assms show "g_err s = first_error (returns s)"
    unfolding Run_inv_def by (elim conjE)
  from assms show "(ctx_Err s \<noteq> None) = (parent_Err s \<noteq> None \<or> g_err s \<noteq> None)"
    unfolding Run_inv_def by (elim conjE)
  from assms show "run_pc s = At_ctx_Done \<or> ctx_Err s \<noteq> None"
    unfolding Run_inv_def by (elim conjE)
  from assms have "\<forall>e. ctx_Done e \<in> set (loop_sel s) \<longrightarrow> ctx_Err s = Some e"
    unfolding Run_inv_def by (elim conjE)
  then show "\<And>e. ctx_Done e \<in> set (loop_sel s) \<Longrightarrow> ctx_Err s = Some e"
    by blast
  from assms have i: "if setup_out s = None then troll s = t
      else setup_out s = Some (snd (Troll_setup c t)) \<and> troll s = fst (Troll_setup c t)"
    unfolding Run_inv_def by (elim conjE)
  from i show "setup_out s = None \<Longrightarrow> troll s = t"
    by simp
  from i show "setup_out s \<noteq> None \<Longrightarrow>
           setup_out s = Some (snd (Troll_setup c t)) \<and> troll s = fst (Troll_setup c t)"
    by (simp split: if_splits)
  from assms show "returns s = returns_of_setup c t s @ returns_of_loop c s
          \<or> returns s = returns_of_loop c s @ returns_of_setup c t s"
    unfolding Run_inv_def by (elim conjE)
  from assms have "\<forall>r. run_pc s = Returned r \<longrightarrow>
            r = g_err s \<and> setup_out s \<noteq> None \<and> (if flag then loop_returned c s else True)"
    unfolding Run_inv_def by (elim conjE)
  then show "\<And>r. run_pc s = Returned r \<Longrightarrow>
           r = g_err s \<and> setup_out s \<noteq> None \<and> (if flag then loop_returned c s else True)"
    by blast
qed

lemma Run_invI:
  assumes "loop_on s = flag"
    and "g_err s = first_error (returns s)"
    and "(ctx_Err s \<noteq> None) = (parent_Err s \<noteq> None \<or> g_err s \<noteq> None)"
    and "run_pc s = At_ctx_Done \<or> ctx_Err s \<noteq> None"
    and "\<And>e. ctx_Done e \<in> set (loop_sel s) \<Longrightarrow> ctx_Err s = Some e"
    and "setup_out s = None \<Longrightarrow> troll s = t"
    and "setup_out s \<noteq> None \<Longrightarrow>
           setup_out s = Some (snd (Troll_setup c t)) \<and> troll s = fst (Troll_setup c t)"
    and "returns s = returns_of_setup c t s @ returns_of_loop c s
          \<or> returns s = returns_of_loop c s @ returns_of_setup c t s"
    and "\<And>r. run_pc s = Returned r \<Longrightarrow>
           r = g_err s \<and> setup_out s \<noteq> None \<and> (if flag then loop_returned c s else True)"
  shows "Run_inv c t flag s"
proof -
  have i: "if setup_out s = None then troll s = t
      else setup_out s = Some (snd (Troll_setup c t)) \<and> troll s = fst (Troll_setup c t)"
    using assms(6,7) by simp
  have j: "\<forall>e. ctx_Done e \<in> set (loop_sel s) \<longrightarrow> ctx_Err s = Some e"
    using assms(5) by blast
  have k: "\<forall>r. run_pc s = Returned r \<longrightarrow>
            r = g_err s \<and> setup_out s \<noteq> None \<and> (if flag then loop_returned c s else True)"
    using assms(9) by blast
  show ?thesis
    unfolding Run_inv_def
    using assms(1-4) j i assms(8) k by (intro conjI)
qed

lemma Run_inv_start: "Run_inv c t flag (Run_start t flag)"
  by (rule Run_invI)
    (simp_all add: Run_start_def returns_of_setup_def returns_of_loop_def statusLoop_def)

subsection \<open>Every step keeps the invariant\<close>

lemma Run_inv_cancel_parent:
  assumes inv: "Run_inv c t flag s"
  shows "Run_inv c t flag (cancel_parent e s)"
proof (rule Run_invI)
  note d = Run_invD [OF inv]
  note f = cancel_parent_fields
  let ?s' = "cancel_parent e s"
  have lo: "returns_of_loop c ?s' = returns_of_loop c s"
    by (rule returns_of_loop_frame) (simp_all add: f)
  have se: "returns_of_setup c t ?s' = returns_of_setup c t s"
    by (rule returns_of_setup_frame) (simp add: f)
  have lr: "loop_returned c ?s' = loop_returned c s"
    by (rule loop_returned_frame) (simp add: f)
  show "loop_on ?s' = flag"
    using d(1) by (simp add: f)
  show "g_err ?s' = first_error (returns ?s')"
    using d(2) by (simp add: f)
  show "(ctx_Err ?s' \<noteq> None) = (parent_Err ?s' \<noteq> None \<or> g_err ?s' \<noteq> None)"
    using d(3) by (auto simp: f split: option.splits)
  show "run_pc ?s' = At_ctx_Done \<or> ctx_Err ?s' \<noteq> None"
    using d(4) by (auto simp: f split: option.splits)
  show "ctx_Err ?s' = Some e'" if "ctx_Done e' \<in> set (loop_sel ?s')" for e'
    using d(5) [of e'] that by (simp add: f)
  show "troll ?s' = t" if "setup_out ?s' = None"
    using d(6) that by (simp add: f)
  show "setup_out ?s' = Some (snd (Troll_setup c t)) \<and> troll ?s' = fst (Troll_setup c t)"
    if "setup_out ?s' \<noteq> None"
    using d(7) that by (simp add: f)
  show "returns ?s' = returns_of_setup c t ?s' @ returns_of_loop c ?s'
          \<or> returns ?s' = returns_of_loop c ?s' @ returns_of_setup c t ?s'"
    using d(8) by (simp add: f lo se)
  show "r = g_err ?s' \<and> setup_out ?s' \<noteq> None \<and> (if flag then loop_returned c ?s' else True)"
    if "run_pc ?s' = Returned r" for r
    using d(9) [of r] that by (simp add: f lr)
qed

lemma group_step_setup_returns:
  "setup_out s = None \<Longrightarrow>
   group_step c s setup_returns =
     errgroup_done (wrap_setup (snd (snd (Troll_setup c (troll s)))))
       (s\<lparr>troll := fst (Troll_setup c (troll s)),
          setup_out := Some (snd (Troll_setup c (troll s)))\<rparr>)"
  by (simp add: group_step_def split: prod.splits)

lemma Run_inv_setup_returns:
  assumes inv: "Run_inv c t flag s"
  shows "Run_inv c t flag (group_step c s setup_returns)"
proof (cases "setup_out s = None")
  case False
  then have "group_step c s setup_returns = s"
    by (simp add: group_step_def)
  with inv show ?thesis by simp
next
  case True
  note d = Run_invD [OF inv]
  have tr: "troll s = t"
    using d(6) True by simp
  let ?x = "wrap_setup (snd (snd (Troll_setup c t)))"
  let ?s1 = "s\<lparr>troll := fst (Troll_setup c t), setup_out := Some (snd (Troll_setup c t))\<rparr>"
  let ?s' = "errgroup_done ?x ?s1"
  have eq: "group_step c s setup_returns = ?s'"
    using group_step_setup_returns [OF True, of c] by (simp add: tr)
  note f = errgroup_done_fields
  have lo: "returns_of_loop c ?s' = returns_of_loop c s"
    by (rule returns_of_loop_frame) (simp_all add: f)
  have lr: "loop_returned c ?s' = loop_returned c s"
    by (rule loop_returned_frame) (simp add: f)
  have se: "returns_of_setup c t ?s' = [?x]"
    by (simp add: returns_of_setup_def f)
  have se0: "returns_of_setup c t s = []"
    using True by (simp add: returns_of_setup_def)
  have "Run_inv c t flag ?s'"
  proof (rule Run_invI)
    show "loop_on ?s' = flag"
      using d(1) by (simp add: f)
    show "g_err ?s' = first_error (returns ?s')"
      using d(2) by (simp add: f first_error_snoc)
    show "(ctx_Err ?s' \<noteq> None) = (parent_Err ?s' \<noteq> None \<or> g_err ?s' \<noteq> None)"
      using d(3) by (auto simp: f split: option.splits)
    show "run_pc ?s' = At_ctx_Done \<or> ctx_Err ?s' \<noteq> None"
      using d(4) by (auto simp: f split: option.splits)
    show "ctx_Err ?s' = Some e'" if "ctx_Done e' \<in> set (loop_sel ?s')" for e'
      using d(5) [of e'] that by (simp add: f)
    show "troll ?s' = t" if "setup_out ?s' = None"
      using that by (simp add: f)
    show "setup_out ?s' = Some (snd (Troll_setup c t)) \<and> troll ?s' = fst (Troll_setup c t)"
      if "setup_out ?s' \<noteq> None"
      by (simp add: f)
    show "returns ?s' = returns_of_setup c t ?s' @ returns_of_loop c ?s'
          \<or> returns ?s' = returns_of_loop c ?s' @ returns_of_setup c t ?s'"
      using d(8) by (simp add: f lo se se0)
    show "r = g_err ?s' \<and> setup_out ?s' \<noteq> None \<and> (if flag then loop_returned c ?s' else True)"
      if "run_pc ?s' = Returned r" for r
      using d(9) [of r] that True by (simp add: f)
  qed
  with eq show ?thesis by simp
qed

lemma statusLoop_snoc:
  assumes "snd (statusLoop c sel) = None"
  shows "snd (statusLoop c (sel @ [sc])) =
     (case sc of ctx_Done e \<Rightarrow> Some (Some e) | ticker_C \<Rightarrow> None)"
proof -
  from assms have "\<not> (\<exists>err. ctx_Done err \<in> set sel)"
    using statusLoop_for_returns_iff [of c 0 sel] by (simp add: statusLoop_def)
  then have "\<forall>x \<in> set sel. x = ticker_C"
    by (metis select_case.exhaust)
  then have "dropWhile (\<lambda>x. x = ticker_C) (sel @ [sc]) = dropWhile (\<lambda>x. x = ticker_C) [sc]"
    by (simp add: dropWhile_append)
  then show ?thesis
    by (cases sc) (simp_all add: statusLoop_def statusLoop_for_result)
qed

lemma group_step_loop_select_disabled:
  "\<not> loop_on s \<or> loop_returned c s \<or> \<not> select_ready s sc \<Longrightarrow>
   group_step c s (loop_select sc) = s"
  by (simp add: group_step_def)

lemma group_step_loop_select_tick:
  assumes "loop_on s" and "\<not> loop_returned c s"
  shows "group_step c s (loop_select ticker_C) = s\<lparr>loop_sel := loop_sel s @ [ticker_C]\<rparr>"
proof -
  from assms(2) have n: "snd (statusLoop c (loop_sel s)) = None"
    by (simp add: loop_returned_def)
  show ?thesis
    using assms by (simp add: group_step_def statusLoop_snoc [OF n])
qed

lemma group_step_loop_select_Done:
  assumes "loop_on s" and "\<not> loop_returned c s" and "ctx_Err s = Some e"
  shows "group_step c s (loop_select (ctx_Done e)) =
     errgroup_done (wrap_status_loop (Some e)) (s\<lparr>loop_sel := loop_sel s @ [ctx_Done e]\<rparr>)"
proof -
  from assms(2) have n: "snd (statusLoop c (loop_sel s)) = None"
    by (simp add: loop_returned_def)
  show ?thesis
    using assms by (simp add: group_step_def statusLoop_snoc [OF n])
qed

lemma Run_inv_loop_select:
  assumes inv: "Run_inv c t flag s"
  shows "Run_inv c t flag (group_step c s (loop_select sc))"
proof (cases "\<not> loop_on s \<or> loop_returned c s \<or> \<not> select_ready s sc")
  case True
  then have "group_step c s (loop_select sc) = s"
    by (rule group_step_loop_select_disabled)
  with inv show ?thesis by simp
next
  case False
  then have on: "loop_on s" and nr: "\<not> loop_returned c s" and rdy: "select_ready s sc"
    by simp_all
  note d = Run_invD [OF inv]
  have flag: "flag"
    using d(1) on by simp
  from nr have n: "snd (statusLoop c (loop_sel s)) = None"
    by (simp add: loop_returned_def)
  have lo0: "returns_of_loop c s = []"
    by (simp add: returns_of_loop_def n)
  have notret: "run_pc s \<noteq> Returned r" for r
    using d(9) [of r] flag nr by auto
  show ?thesis
  proof (cases sc)
    case ticker_C
    let ?s' = "s\<lparr>loop_sel := loop_sel s @ [ticker_C]\<rparr>"
    have eq: "group_step c s (loop_select sc) = ?s'"
      using group_step_loop_select_tick [OF on nr] ticker_C by simp
    have n': "snd (statusLoop c (loop_sel s @ [ticker_C])) = None"
      using statusLoop_snoc [OF n, of ticker_C] by simp
    have lo: "returns_of_loop c ?s' = []"
      by (simp add: returns_of_loop_def n')
    have se: "returns_of_setup c t ?s' = returns_of_setup c t s"
      by (rule returns_of_setup_frame) simp
    have "Run_inv c t flag ?s'"
    proof (rule Run_invI)
      show "loop_on ?s' = flag"
        using d(1) by simp
      show "g_err ?s' = first_error (returns ?s')"
        using d(2) by simp
      show "(ctx_Err ?s' \<noteq> None) = (parent_Err ?s' \<noteq> None \<or> g_err ?s' \<noteq> None)"
        using d(3) by simp
      show "run_pc ?s' = At_ctx_Done \<or> ctx_Err ?s' \<noteq> None"
        using d(4) by simp
      show "ctx_Err ?s' = Some e'" if "ctx_Done e' \<in> set (loop_sel ?s')" for e'
        using d(5) [of e'] that by simp
      show "troll ?s' = t" if "setup_out ?s' = None"
        using d(6) that by simp
      show "setup_out ?s' = Some (snd (Troll_setup c t)) \<and> troll ?s' = fst (Troll_setup c t)"
        if "setup_out ?s' \<noteq> None"
        using d(7) that by simp
      show "returns ?s' = returns_of_setup c t ?s' @ returns_of_loop c ?s'
          \<or> returns ?s' = returns_of_loop c ?s' @ returns_of_setup c t ?s'"
        using d(8) by (simp add: lo lo0 se)
      show "r = g_err ?s' \<and> setup_out ?s' \<noteq> None \<and> (if flag then loop_returned c ?s' else True)"
        if "run_pc ?s' = Returned r" for r
        using notret [of r] that by simp
    qed
    with eq show ?thesis by simp
  next
    case (ctx_Done e)
    with rdy have ce: "ctx_Err s = Some e"
      by simp
    let ?x = "wrap_status_loop (Some e)"
    let ?s1 = "s\<lparr>loop_sel := loop_sel s @ [ctx_Done e]\<rparr>"
    let ?s' = "errgroup_done ?x ?s1"
    have eq: "group_step c s (loop_select sc) = ?s'"
      using group_step_loop_select_Done [OF on nr ce] ctx_Done by simp
    note f = errgroup_done_fields
    have n': "snd (statusLoop c (loop_sel s @ [ctx_Done e])) = Some (Some e)"
      using statusLoop_snoc [OF n, of "ctx_Done e"] by simp
    have lo: "returns_of_loop c ?s' = [?x]"
      using on by (simp add: returns_of_loop_def n' f)
    have se: "returns_of_setup c t ?s' = returns_of_setup c t s"
      by (rule returns_of_setup_frame) (simp add: f)
    have "Run_inv c t flag ?s'"
    proof (rule Run_invI)
      show "loop_on ?s' = flag"
        using d(1) by (simp add: f)
      show "g_err ?s' = first_error (returns ?s')"
        using d(2) by (simp add: f first_error_snoc)
      show "(ctx_Err ?s' \<noteq> None) = (parent_Err ?s' \<noteq> None \<or> g_err ?s' \<noteq> None)"
        using d(3) ce by (auto simp: f wrap_status_loop_def split: option.splits)
      show "run_pc ?s' = At_ctx_Done \<or> ctx_Err ?s' \<noteq> None"
        using ce by (simp add: f)
      show "ctx_Err ?s' = Some e'" if "ctx_Done e' \<in> set (loop_sel ?s')" for e'
        using d(5) [of e'] that ce by (auto simp: f)
      show "troll ?s' = t" if "setup_out ?s' = None"
        using d(6) that by (simp add: f)
      show "setup_out ?s' = Some (snd (Troll_setup c t)) \<and> troll ?s' = fst (Troll_setup c t)"
        if "setup_out ?s' \<noteq> None"
        using d(7) that by (simp add: f)
      show "returns ?s' = returns_of_setup c t ?s' @ returns_of_loop c ?s'
          \<or> returns ?s' = returns_of_loop c ?s' @ returns_of_setup c t ?s'"
        using d(8) by (simp add: f lo lo0 se)
      show "r = g_err ?s' \<and> setup_out ?s' \<noteq> None \<and> (if flag then loop_returned c ?s' else True)"
        if "run_pc ?s' = Returned r" for r
        using notret [of r] that by (simp add: f)
    qed
    with eq show ?thesis by simp
  qed
qed

lemma Run_inv_run_step:
  assumes inv: "Run_inv c t flag s"
  shows "Run_inv c t flag (group_step c s run_step)"
proof (cases "run_pc s")
  case (Returned r)
  then have "group_step c s run_step = s"
    by (simp add: group_step_def)
  with inv show ?thesis by simp
next
  case At_ctx_Done
  show ?thesis
  proof (cases "ctx_Err s = None")
    case True
    with At_ctx_Done have "group_step c s run_step = s"
      by (simp add: group_step_def)
    with inv show ?thesis by simp
  next
    case False
    note d = Run_invD [OF inv]
    let ?s' = "s\<lparr>run_pc := At_Wait\<rparr>"
    have eq: "group_step c s run_step = ?s'"
      using At_ctx_Done False by (simp add: group_step_def)
    have lo: "returns_of_loop c ?s' = returns_of_loop c s"
      by (rule returns_of_loop_frame) simp_all
    have se: "returns_of_setup c t ?s' = returns_of_setup c t s"
      by (rule returns_of_setup_frame) simp
    have "Run_inv c t flag ?s'"
    proof (rule Run_invI)
      show "loop_on ?s' = flag"
        using d(1) by simp
      show "g_err ?s' = first_error (returns ?s')"
        using d(2) by simp
      show "(ctx_Err ?s' \<noteq> None) = (parent_Err ?s' \<noteq> None \<or> g_err ?s' \<noteq> None)"
        using d(3) by simp
      show "run_pc ?s' = At_ctx_Done \<or> ctx_Err ?s' \<noteq> None"
        using False by simp
      show "ctx_Err ?s' = Some e'" if "ctx_Done e' \<in> set (loop_sel ?s')" for e'
        using d(5) [of e'] that by simp
      show "troll ?s' = t" if "setup_out ?s' = None"
        using d(6) that by simp
      show "setup_out ?s' = Some (snd (Troll_setup c t)) \<and> troll ?s' = fst (Troll_setup c t)"
        if "setup_out ?s' \<noteq> None"
        using d(7) that by simp
      show "returns ?s' = returns_of_setup c t ?s' @ returns_of_loop c ?s'
          \<or> returns ?s' = returns_of_loop c ?s' @ returns_of_setup c t ?s'"
        using d(8) by (simp add: lo se)
      show "r = g_err ?s' \<and> setup_out ?s' \<noteq> None \<and> (if flag then loop_returned c ?s' else True)"
        if "run_pc ?s' = Returned r" for r
        using that by simp
    qed
    with eq show ?thesis by simp
  qed
next
  case At_Wait
  show ?thesis
  proof (cases "setup_out s \<noteq> None \<and> (if loop_on s then loop_returned c s else True)")
    case False
    with At_Wait have "group_step c s run_step = s"
      by (simp add: group_step_def)
    with inv show ?thesis by simp
  next
    case True
    note d = Run_invD [OF inv]
    let ?s' = "s\<lparr>run_pc := Returned (g_err s)\<rparr>"
    have eq: "group_step c s run_step = ?s'"
      using At_Wait True by (simp add: group_step_def)
    have lo: "returns_of_loop c ?s' = returns_of_loop c s"
      by (rule returns_of_loop_frame) simp_all
    have se: "returns_of_setup c t ?s' = returns_of_setup c t s"
      by (rule returns_of_setup_frame) simp
    have lr: "loop_returned c ?s' = loop_returned c s"
      by (rule loop_returned_frame) simp
    have "Run_inv c t flag ?s'"
    proof (rule Run_invI)
      show "loop_on ?s' = flag"
        using d(1) by simp
      show "g_err ?s' = first_error (returns ?s')"
        using d(2) by simp
      show "(ctx_Err ?s' \<noteq> None) = (parent_Err ?s' \<noteq> None \<or> g_err ?s' \<noteq> None)"
        using d(3) by simp
      show "run_pc ?s' = At_ctx_Done \<or> ctx_Err ?s' \<noteq> None"
        using d(4) At_Wait by simp
      show "ctx_Err ?s' = Some e'" if "ctx_Done e' \<in> set (loop_sel ?s')" for e'
        using d(5) [of e'] that by simp
      show "troll ?s' = t" if "setup_out ?s' = None"
        using d(6) that by simp
      show "setup_out ?s' = Some (snd (Troll_setup c t)) \<and> troll ?s' = fst (Troll_setup c t)"
        if "setup_out ?s' \<noteq> None"
        using d(7) that by simp
      show "returns ?s' = returns_of_setup c t ?s' @ returns_of_loop c ?s'
          \<or> returns ?s' = returns_of_loop c ?s' @ returns_of_setup c t ?s'"
        using d(8) by (simp add: lo se)
      show "r = g_err ?s' \<and> setup_out ?s' \<noteq> None \<and> (if flag then loop_returned c ?s' else True)"
        if "run_pc ?s' = Returned r" for r
        using that True d(1) by (auto simp: lr)
    qed
    with eq show ?thesis by simp
  qed
qed

lemma Run_inv_step:
  assumes "Run_inv c t flag s"
  shows "Run_inv c t flag (group_step c s a)"
proof (cases a)
  case parent_cancel
  have "group_step c s parent_cancel = cancel_parent Canceled s"
    by (simp add: group_step_def)
  with Run_inv_cancel_parent [OF assms, of Canceled] parent_cancel show ?thesis by simp
next
  case parent_deadline
  have "group_step c s parent_deadline = cancel_parent DeadlineExceeded s"
    by (simp add: group_step_def)
  with Run_inv_cancel_parent [OF assms, of DeadlineExceeded] parent_deadline show ?thesis by simp
next
  case setup_returns
  with Run_inv_setup_returns [OF assms] show ?thesis by simp
next
  case (loop_select sc)
  with Run_inv_loop_select [OF assms, of sc] show ?thesis by simp
next
  case run_step
  with Run_inv_run_step [OF assms] show ?thesis by simp
qed

lemma Run_inv_steps:
  "Run_inv c t flag s \<Longrightarrow> Run_inv c t flag (foldl (group_step c) s sched)"
  by (induction sched arbitrary: s) (simp_all add: Run_inv_step)

lemma Run_inv_Run: "Run_inv c t flag (Run c t flag sched)"
  unfolding Run_def by (rule Run_inv_steps) (rule Run_inv_start)

subsection \<open>Progress once the group's context is done\<close>

lemma setup_returns_effect:
  "setup_out (group_step c s setup_returns) \<noteq> None"
  "ctx_Err s = Some e \<Longrightarrow> ctx_Err (group_step c s setup_returns) = Some e"
  "loop_on (group_step c s setup_returns) = loop_on s"
  "loop_sel (group_step c s setup_returns) = loop_sel s"
  "run_pc (group_step c s setup_returns) = run_pc s"
proof -
  show "setup_out (group_step c s setup_returns) \<noteq> None"
    by (cases "setup_out s = None")
      (simp_all add: group_step_setup_returns errgroup_done_fields, simp add: group_step_def)
  show "ctx_Err (group_step c s setup_returns) = Some e" if "ctx_Err s = Some e"
    using that
    by (cases "setup_out s = None")
      (simp_all add: group_step_setup_returns errgroup_done_fields, simp add: group_step_def)
  show "loop_on (group_step c s setup_returns) = loop_on s"
    by (cases "setup_out s = None")
      (simp_all add: group_step_setup_returns errgroup_done_fields, simp add: group_step_def)
  show "loop_sel (group_step c s setup_returns) = loop_sel s"
    by (cases "setup_out s = None")
      (simp_all add: group_step_setup_returns errgroup_done_fields, simp add: group_step_def)
  show "run_pc (group_step c s setup_returns) = run_pc s"
    by (cases "setup_out s = None")
      (simp_all add: group_step_setup_returns errgroup_done_fields, simp add: group_step_def)
qed

lemma loop_select_Done_effect:
  assumes "ctx_Err s = Some e"
  shows "loop_on s \<Longrightarrow> loop_returned c (group_step c s (loop_select (ctx_Done e)))"
    and "ctx_Err (group_step c s (loop_select (ctx_Done e))) = Some e"
    and "setup_out (group_step c s (loop_select (ctx_Done e))) = setup_out s"
    and "loop_on (group_step c s (loop_select (ctx_Done e))) = loop_on s"
    and "run_pc (group_step c s (loop_select (ctx_Done e))) = run_pc s"
proof -
  have dis: "group_step c s (loop_select (ctx_Done e)) = s"
    if "\<not> loop_on s \<or> loop_returned c s"
    using that by (simp add: group_step_def)
  have en: "group_step c s (loop_select (ctx_Done e)) =
      errgroup_done (wrap_status_loop (Some e)) (s\<lparr>loop_sel := loop_sel s @ [ctx_Done e]\<rparr>)"
    if "loop_on s" "\<not> loop_returned c s"
    using group_step_loop_select_Done [OF that assms] .
  have ret: "loop_returned c
      (errgroup_done (wrap_status_loop (Some e)) (s\<lparr>loop_sel := loop_sel s @ [ctx_Done e]\<rparr>))"
    if "\<not> loop_returned c s"
  proof -
    from that have n: "snd (statusLoop c (loop_sel s)) = None"
      by (simp add: loop_returned_def)
    show ?thesis
      using statusLoop_snoc [OF n, of "ctx_Done e"]
      by (simp add: loop_returned_def errgroup_done_fields)
  qed
  show "loop_returned c (group_step c s (loop_select (ctx_Done e)))" if "loop_on s"
  proof (cases "loop_returned c s")
    case True
    with dis show ?thesis by simp
  next
    case False
    with en [OF that False] ret [OF False] show ?thesis by simp
  qed
  show "ctx_Err (group_step c s (loop_select (ctx_Done e))) = Some e"
  proof (cases "\<not> loop_on s \<or> loop_returned c s")
    case True
    with dis assms show ?thesis by simp
  next
    case False
    with en assms show ?thesis by (simp add: errgroup_done_fields)
  qed
  show "setup_out (group_step c s (loop_select (ctx_Done e))) = setup_out s"
  proof (cases "\<not> loop_on s \<or> loop_returned c s")
    case True
    with dis show ?thesis by simp
  next
    case False
    with en show ?thesis by (simp add: errgroup_done_fields)
  qed
  show "loop_on (group_step c s (loop_select (ctx_Done e))) = loop_on s"
  proof (cases "\<not> loop_on s \<or> loop_returned c s")
    case True
    with dis show ?thesis by simp
  next
    case False
    with en show ?thesis by (simp add: errgroup_done_fields)
  qed
  show "run_pc (group_step c s (loop_select (ctx_Done e))) = run_pc s"
  proof (cases "\<not> loop_on s \<or> loop_returned c s")
    case True
    with dis show ?thesis by simp
  next
    case False
    with en show ?thesis by (simp add: errgroup_done_fields)
  qed
qed

lemma run_step_effect:
  assumes "ctx_Err s \<noteq> None" and "setup_out s \<noteq> None"
    and "if loop_on s then loop_returned c s else True"
  shows "run_pc (group_step c s run_step) =
      (case run_pc s of
         At_ctx_Done \<Rightarrow> At_Wait
       | At_Wait \<Rightarrow> Returned (g_err s)
       | Returned r \<Rightarrow> Returned r)"
    and "ctx_Err (group_step c s run_step) = ctx_Err s"
    and "setup_out (group_step c s run_step) = setup_out s"
    and "loop_on (group_step c s run_step) = loop_on s"
    and "loop_sel (group_step c s run_step) = loop_sel s"
    and "g_err (group_step c s run_step) = g_err s"
  using assms by (cases "run_pc s"; simp add: group_step_def)+

lemma Run_can_return:
  assumes "ctx_Err s = Some e"
  shows "\<exists>r. run_pc (foldl (group_step c) s
            [setup_returns, loop_select (ctx_Done e), run_step, run_step]) = Returned r"
proof -
  let ?s1 = "group_step c s setup_returns"
  let ?s2 = "group_step c ?s1 (loop_select (ctx_Done e))"
  let ?s3 = "group_step c ?s2 run_step"
  let ?s4 = "group_step c ?s3 run_step"
  have c1: "ctx_Err ?s1 = Some e"
    using assms by (rule setup_returns_effect(2))
  have o1: "setup_out ?s1 \<noteq> None"
    by (rule setup_returns_effect(1))
  have c2: "ctx_Err ?s2 \<noteq> None"
    using loop_select_Done_effect(2) [OF c1, of c] by simp
  have o2: "setup_out ?s2 \<noteq> None"
    using loop_select_Done_effect(3) [OF c1, of c] o1 by simp
  have l2: "if loop_on ?s2 then loop_returned c ?s2 else True"
    using loop_select_Done_effect(1) [OF c1, of c] loop_select_Done_effect(4) [OF c1, of c]
    by simp
  note r3 = run_step_effect [OF c2 o2 l2]
  have l3: "if loop_on ?s3 then loop_returned c ?s3 else True"
    using l2 r3(4) loop_returned_frame [OF r3(5), of c] by simp
  have c3: "ctx_Err ?s3 \<noteq> None" and o3: "setup_out ?s3 \<noteq> None"
    using c2 o2 r3(2,3) by simp_all
  note r4 = run_step_effect [OF c3 o3 l3]
  have "\<exists>r. run_pc ?s4 = Returned r"
    unfolding r4(1) r3(1) by (cases "run_pc ?s2") simp_all
  then show ?thesis by simp
qed

subsection \<open>After the group's context is done\<close>

lemma ctx_Err_stays:
  assumes "ctx_Err s = Some e"
  shows "ctx_Err (group_step c s a) = Some e"
proof (cases a)
  case parent_cancel
  with assms show ?thesis
    by (simp add: group_step_def cancel_parent_fields)
next
  case parent_deadline
  with assms show ?thesis
    by (simp add: group_step_def cancel_parent_fields)
next
  case setup_returns
  with setup_returns_effect(2) [OF assms, of c] show ?thesis by simp
next
  case (loop_select sc)
  show ?thesis
  proof (cases "\<not> loop_on s \<or> loop_returned c s \<or> \<not> select_ready s sc")
    case True
    with assms loop_select show ?thesis
      by (simp add: group_step_loop_select_disabled)
  next
    case False
    then have on: "loop_on s" and nr: "\<not> loop_returned c s" and rdy: "select_ready s sc"
      by simp_all
    show ?thesis
    proof (cases sc)
      case ticker_C
      with assms loop_select group_step_loop_select_tick [OF on nr] show ?thesis
        by simp
    next
      case (ctx_Done e')
      with rdy assms have "e' = e" by simp
      with assms loop_select ctx_Done group_step_loop_select_Done [OF on nr assms]
      show ?thesis
        by (simp add: errgroup_done_fields)
    qed
  qed
next
  case run_step
  with assms show ?thesis
    by (cases "run_pc s") (simp_all add: group_step_def)
qed

lemma ctx_Err_stays_steps:
  "ctx_Err s = Some e \<Longrightarrow> ctx_Err (foldl (group_step c) s later) = Some e"
  by (induction later arbitrary: s) (simp_all add: ctx_Err_stays)

lemma loop_select_tick_effect:
  assumes "\<not> loop_returned c s"
  shows "\<not> loop_returned c (group_step c s (loop_select ticker_C))"
    and "loop_on s \<Longrightarrow>
           loop_sel (group_step c s (loop_select ticker_C)) = loop_sel s @ [ticker_C]"
    and "loop_on (group_step c s (loop_select ticker_C)) = loop_on s"
proof -
  from assms have n: "snd (statusLoop c (loop_sel s)) = None"
    by (simp add: loop_returned_def)
  have n': "snd (statusLoop c (loop_sel s @ [ticker_C])) = None"
    using statusLoop_snoc [OF n, of ticker_C] by simp
  have en: "group_step c s (loop_select ticker_C) = s\<lparr>loop_sel := loop_sel s @ [ticker_C]\<rparr>"
    if "loop_on s"
    using group_step_loop_select_tick [OF that assms] .
  have dis: "group_step c s (loop_select ticker_C) = s" if "\<not> loop_on s"
    using that by (simp add: group_step_def)
  show "\<not> loop_returned c (group_step c s (loop_select ticker_C))"
  proof (cases "loop_on s")
    case True
    with en n' show ?thesis by (simp add: loop_returned_def)
  next
    case False
    with dis assms show ?thesis by simp
  qed
  show "loop_sel (group_step c s (loop_select ticker_C)) = loop_sel s @ [ticker_C]"
    if "loop_on s"
    using en [OF that] by simp
  show "loop_on (group_step c s (loop_select ticker_C)) = loop_on s"
    by (cases "loop_on s") (simp_all add: en dis)
qed

lemma loop_select_ticks_effect:
  assumes "loop_on s" and "\<not> loop_returned c s"
  shows "\<not> loop_returned c (foldl (group_step c) s (replicate n (loop_select ticker_C)))
     \<and> loop_sel (foldl (group_step c) s (replicate n (loop_select ticker_C)))
         = loop_sel s @ replicate n ticker_C
     \<and> loop_on (foldl (group_step c) s (replicate n (loop_select ticker_C)))"
  using assms
proof (induction n arbitrary: s)
  case 0
  then show ?case by simp
next
  case (Suc n)
  let ?s1 = "group_step c s (loop_select ticker_C)"
  note e = loop_select_tick_effect [OF Suc.prems(2)]
  have on1: "loop_on ?s1"
    using e(3) Suc.prems(1) by simp
  from Suc.IH [OF on1 e(1)] e(2) [OF Suc.prems(1)] show ?case
    by (simp add: replicate_app_Cons_same)
qed

lemma loop_returned_iff_Done_taken:
  "loop_returned c s = (\<exists>e. ctx_Done e \<in> set (loop_sel s))"
  using statusLoop_for_returns_iff [of c 0 "loop_sel s"]
  by (simp add: loop_returned_def statusLoop_def)

lemma loop_returned_ctx_Err:
  assumes "\<forall>e. ctx_Done e \<in> set (loop_sel s) \<longrightarrow> ctx_Err s = Some e"
    and "loop_returned c s"
  shows "\<exists>e. ctx_Err s = Some e \<and> snd (statusLoop c (loop_sel s)) = Some (Some e)"
proof -
  from assms(2) have "snd (statusLoop_for c 0 (loop_sel s)) \<noteq> None"
    by (simp add: loop_returned_def statusLoop_def)
  then obtain e rest where
    d: "dropWhile (\<lambda>x. x = ticker_C) (loop_sel s) = ctx_Done e # rest"
    by (auto simp: statusLoop_for_result split: list.splits select_case.splits)
  then have "ctx_Done e \<in> set (dropWhile (\<lambda>x. x = ticker_C) (loop_sel s))"
    by simp
  then have "ctx_Done e \<in> set (loop_sel s)"
    by (rule set_dropWhileD)
  with assms(1) have "ctx_Err s = Some e" by blast
  moreover have "snd (statusLoop c (loop_sel s)) = Some (Some e)"
    by (simp add: statusLoop_def statusLoop_for_result d)
  ultimately show ?thesis by blast
qed

text \<open>
  C5, as the code has it. The specification lets \<open>Run\<close> block until the external
  cancellation signal fires. \<open>Run\<close> receives from \<open>ctx.Done()\<close> of the context that
  \<open>errgroup.WithContext\<close> returned, which is also done when a goroutine of the group
  returns an error. So, for every schedule:
  \<^item> \<open>Run\<close> is past \<open><-ctx.Done()\<close> only when the group's context is done, and that
    context is done exactly when the context given to \<open>Run\<close> is done or a goroutine
    has returned a non-nil error (a failing task cancels the shared scope);
  \<^item> when \<open>Run\<close> has returned \<open>r\<close>, \<open>setup\<close> has returned, the status loop, if
    started, has returned the error of the group's context, and \<open>r\<close> is the first
    non-nil value, in the order of returning, among the setup result wrapped by "setup"
    and the loop result wrapped by "status loop"; \<open>r\<close> is nil exactly when no loop was
    started and \<open>setup\<close> returned nil;
  \<^item> the loop has returned exactly when its \<open>select\<close> has taken the Done case.
    Once the group's context is done it stays done, so the Done case is ready at every
    later \<open>select\<close>, and the loop returns the first time its \<open>select\<close> takes it.
    A \<open>select\<close> at which a tick is ready as well may take the tick: after any number
    of such ticks the loop has made that many more status calls, has not returned, and
    still returns as soon as the Done case is taken;
  \<^item> once the group's context is done \<open>Run\<close> does return: after the setup goroutine
    has returned and the loop has taken the Done case, two steps of \<open>Run\<close> reach the
    return.
\<close>

theorem Run_returns_first_error_once_group_context_done:
  assumes "s = Run c t flag sched"
  shows
    "(run_pc s = At_ctx_Done \<or> ctx_Err s \<noteq> None)
     \<and> ((ctx_Err s \<noteq> None) = (parent_Err s \<noteq> None \<or> (\<exists>err. Some err \<in> set (returns s))))
     \<and> (\<forall>r. run_pc s = Returned r \<longrightarrow>
           setup_out s = Some (snd (Troll_setup c t))
           \<and> (flag \<longrightarrow> (\<exists>e. ctx_Err s = Some e
                  \<and> snd (statusLoop c (loop_sel s)) = Some (Some e)))
           \<and> (returns s =
                 wrap_setup (snd (snd (Troll_setup c t)))
                   # (if flag then [wrap_status_loop (ctx_Err s)] else [])
               \<or> returns s =
                 (if flag then [wrap_status_loop (ctx_Err s)] else [])
                   @ [wrap_setup (snd (snd (Troll_setup c t)))])
           \<and> r = first_error (returns s)
           \<and> ((r = None) = (\<not> flag \<and> snd (snd (Troll_setup c t)) = None)))
     \<and> (loop_returned c s = (\<exists>e. ctx_Done e \<in> set (loop_sel s)))
     \<and> (\<forall>e. flag \<and> ctx_Err s = Some e \<longrightarrow>
           select_ready s (ctx_Done e)
           \<and> (\<forall>later. ctx_Err (foldl (group_step c) s later) = Some e
                 \<and> select_ready (foldl (group_step c) s later) (ctx_Done e))
           \<and> loop_returned c (group_step c s (loop_select (ctx_Done e)))
           \<and> (\<not> loop_returned c s \<longrightarrow>
                (\<forall>n. \<not> loop_returned c
                         (foldl (group_step c) s (replicate n (loop_select ticker_C)))
                   \<and> loop_sel (foldl (group_step c) s (replicate n (loop_select ticker_C)))
                       = loop_sel s @ replicate n ticker_C
                   \<and> loop_returned c
                         (group_step c
                            (foldl (group_step c) s (replicate n (loop_select ticker_C)))
                            (loop_select (ctx_Done e))))))
     \<and> (\<forall>e. ctx_Err s = Some e \<longrightarrow>
           (\<exists>r. run_pc (Run c t flag
                   (sched @ [setup_returns, loop_select (ctx_Done e), run_step, run_step]))
                 = Returned r))"
proof -
  have inv: "Run_inv c t flag s"
    unfolding assms by (rule Run_inv_Run)
  note d = Run_invD [OF inv]
  have g: "(g_err s \<noteq> None) = (\<exists>err. Some err \<in> set (returns s))"
    unfolding d(2) using first_error_None_iff [of "returns s"] by (metis not_Some_eq)
  have 1: "run_pc s = At_ctx_Done \<or> ctx_Err s \<noteq> None"
    by (rule d(4))
  have 2: "(ctx_Err s \<noteq> None) = (parent_Err s \<noteq> None \<or> (\<exists>err. Some err \<in> set (returns s)))"
    using d(3) g by simp
  have 3: "\<forall>r. run_pc s = Returned r \<longrightarrow>
           setup_out s = Some (snd (Troll_setup c t))
           \<and> (flag \<longrightarrow> (\<exists>e. ctx_Err s = Some e
                  \<and> snd (statusLoop c (loop_sel s)) = Some (Some e)))
           \<and> (returns s =
                 wrap_setup (snd (snd (Troll_setup c t)))
                   # (if flag then [wrap_status_loop (ctx_Err s)] else [])
               \<or> returns s =
                 (if flag then [wrap_status_loop (ctx_Err s)] else [])
                   @ [wrap_setup (snd (snd (Troll_setup c t)))])
           \<and> r = first_error (returns s)
           \<and> ((r = None) = (\<not> flag \<and> snd (snd (Troll_setup c t)) = None))"
  proof (intro allI impI)
    fix r assume ret: "run_pc s = Returned r"
    from d(9) [OF ret] have r: "r = g_err s" and so: "setup_out s \<noteq> None"
      and lr: "if flag then loop_returned c s else True"
      by simp_all
    from d(7) [OF so] have so': "setup_out s = Some (snd (Troll_setup c t))"
      by simp
    have se: "returns_of_setup c t s = [wrap_setup (snd (snd (Troll_setup c t)))]"
      using so by (simp add: returns_of_setup_def)
    have loop: "\<exists>e. ctx_Err s = Some e \<and> snd (statusLoop c (loop_sel s)) = Some (Some e)"
      if flag
    proof -
      from lr that have "loop_returned c s" by simp
      moreover have "\<forall>e. ctx_Done e \<in> set (loop_sel s) \<longrightarrow> ctx_Err s = Some e"
        using d(5) by blast
      ultimately show ?thesis
        by (rule loop_returned_ctx_Err [rotated])
    qed
    have lo: "returns_of_loop c s = (if flag then [wrap_status_loop (ctx_Err s)] else [])"
    proof (cases flag)
      case True
      from loop [OF True] obtain e where
        "ctx_Err s = Some e" "snd (statusLoop c (loop_sel s)) = Some (Some e)"
        by blast
      with True d(1) show ?thesis
        by (simp add: returns_of_loop_def)
    next
      case False
      with d(1) show ?thesis
        by (simp add: returns_of_loop_def)
    qed
    have rs: "returns s =
                 wrap_setup (snd (snd (Troll_setup c t)))
                   # (if flag then [wrap_status_loop (ctx_Err s)] else [])
               \<or> returns s =
                 (if flag then [wrap_status_loop (ctx_Err s)] else [])
                   @ [wrap_setup (snd (snd (Troll_setup c t)))]"
      using d(8) unfolding se lo by simp
    have fe: "r = first_error (returns s)"
      using r d(2) by simp
    have nil: "(r = None) = (\<not> flag \<and> snd (snd (Troll_setup c t)) = None)"
    proof (cases flag)
      case True
      from loop [OF True] obtain e where e: "ctx_Err s = Some e"
        by blast
      from rs True e have "Some (Errorf ''status loop: %w'' [] (Some e)) \<in> set (returns s)"
        by (auto simp: wrap_status_loop_def)
      then have "first_error (returns s) \<noteq> None"
        unfolding first_error_None_iff by blast
      with fe True show ?thesis by simp
    next
      case False
      with rs have "returns s = [wrap_setup (snd (snd (Troll_setup c t)))]"
        by simp
      with fe False show ?thesis
        by (cases "snd (snd (Troll_setup c t))") (simp_all add: wrap_setup_def)
    qed
    from so' loop rs fe nil
    show "setup_out s = Some (snd (Troll_setup c t))
           \<and> (flag \<longrightarrow> (\<exists>e. ctx_Err s = Some e
                  \<and> snd (statusLoop c (loop_sel s)) = Some (Some e)))
           \<and> (returns s =
                 wrap_setup (snd (snd (Troll_setup c t)))
                   # (if flag then [wrap_status_loop (ctx_Err s)] else [])
               \<or> returns s =
                 (if flag then [wrap_status_loop (ctx_Err s)] else [])
                   @ [wrap_setup (snd (snd (Troll_setup c t)))])
           \<and> r = first_error (returns s)
           \<and> ((r = None) = (\<not> flag \<and> snd (snd (Troll_setup c t)) = None))"
      by blast
  qed
  have 4: "loop_returned c s = (\<exists>e. ctx_Done e \<in> set (loop_sel s))"
    by (rule loop_returned_iff_Done_taken)
  have 6: "(\<forall>e. flag \<and> ctx_Err s = Some e \<longrightarrow>
           select_ready s (ctx_Done e)
           \<and> (\<forall>later. ctx_Err (foldl (group_step c) s later) = Some e
                 \<and> select_ready (foldl (group_step c) s later) (ctx_Done e))
           \<and> loop_returned c (group_step c s (loop_select (ctx_Done e)))
           \<and> (\<not> loop_returned c s \<longrightarrow>
                (\<forall>n. \<not> loop_returned c
                         (foldl (group_step c) s (replicate n (loop_select ticker_C)))
                   \<and> loop_sel (foldl (group_step c) s (replicate n (loop_select ticker_C)))
                       = loop_sel s @ replicate n ticker_C
                   \<and> loop_returned c
                         (group_step c
                            (foldl (group_step c) s (replicate n (loop_select ticker_C)))
                            (loop_select (ctx_Done e))))))"
  proof (intro allI impI, elim conjE)
    fix e assume fl: flag and ce: "ctx_Err s = Some e"
    have on: "loop_on s"
      using d(1) fl by simp
    have stays: "ctx_Err (foldl (group_step c) s later) = Some e
        \<and> select_ready (foldl (group_step c) s later) (ctx_Done e)" for later
      using ctx_Err_stays_steps [OF ce, of c later] by simp
    have ticks: "\<not> loop_returned c
                         (foldl (group_step c) s (replicate n (loop_select ticker_C)))
                   \<and> loop_sel (foldl (group_step c) s (replicate n (loop_select ticker_C)))
                       = loop_sel s @ replicate n ticker_C
                   \<and> loop_returned c
                         (group_step c
                            (foldl (group_step c) s (replicate n (loop_select ticker_C)))
                            (loop_select (ctx_Done e)))"
      if nr: "\<not> loop_returned c s" for n
    proof -
      let ?s' = "foldl (group_step c) s (replicate n (loop_select ticker_C))"
      note k = loop_select_ticks_effect [OF on nr, of n]
      have ce': "ctx_Err ?s' = Some e"
        by (rule ctx_Err_stays_steps [OF ce])
      from k have on': "loop_on ?s'" by simp
      from loop_select_Done_effect(1) [OF ce' on', of c] k show ?thesis
        by simp
    qed
    show "select_ready s (ctx_Done e)
           \<and> (\<forall>later. ctx_Err (foldl (group_step c) s later) = Some e
                 \<and> select_ready (foldl (group_step c) s later) (ctx_Done e))
           \<and> loop_returned c (group_step c s (loop_select (ctx_Done e)))
           \<and> (\<not> loop_returned c s \<longrightarrow>
                (\<forall>n. \<not> loop_returned c
                         (foldl (group_step c) s (replicate n (loop_select ticker_C)))
                   \<and> loop_sel (foldl (group_step c) s (replicate n (loop_select ticker_C)))
                       = loop_sel s @ replicate n ticker_C
                   \<and> loop_returned c
                         (group_step c
                            (foldl (group_step c) s (replicate n (loop_select ticker_C)))
                            (loop_select (ctx_Done e)))))"
      using ce stays loop_select_Done_effect(1) [OF ce on, of c] ticks
      by (intro conjI allI impI) simp_all
  qed
  have 5: "\<forall>e. ctx_Err s = Some e \<longrightarrow>
           (\<exists>r. run_pc (Run c t flag
                   (sched @ [setup_returns, loop_select (ctx_Done e), run_step, run_step]))
                 = Returned r)"
    unfolding Run_append assms [symmetric] using Run_can_return [of s _ c] by blast
  from 1 2 3 4 6 5 show ?thesis
    by (intro conjI)
qed

lemmas Run_eval =
  Run_def Run_start_def group_step_def cancel_parent_def errgroup_done_def
  loop_returned_def statusLoop_def wrap_setup_def wrap_status_loop_def
  Troll_setup_def getUser_def getSticker_def NewTroll_def

theorem Run_returns_first_error_once_group_context_done_witness:
  "run_pc (Run good_transport (NewTroll ''durov'' ''trolls'') True
       [setup_returns, loop_select ticker_C, parent_cancel,
        loop_select (ctx_Done Canceled), run_step, run_step])
     = Returned (Some (Errorf ''status loop: %w'' [] (Some Canceled)))
   \<and> Some (Errorf ''status loop: %w'' [] (Some Canceled))
     = first_error (returns (Run good_transport (NewTroll ''durov'' ''trolls'') True
       [setup_returns, loop_select ticker_C, parent_cancel,
        loop_select (ctx_Done Canceled), run_step, run_step]))
   \<and> ctx_Err (Run good_transport (NewTroll ''durov'' ''trolls'') True
       [setup_returns, loop_select ticker_C, parent_cancel,
        loop_select (ctx_Done Canceled), run_step, run_step]) = Some Canceled
   \<and> (\<exists>r. run_pc (Run good_transport (NewTroll ''durov'' ''trolls'') True
       ([parent_deadline]
        @ [setup_returns, loop_select (ctx_Done DeadlineExceeded), run_step, run_step]))
       = Returned r)
   \<and> \<not> loop_returned good_transport
       (foldl (group_step good_transport)
          (Run good_transport (NewTroll ''durov'' ''trolls'') True [parent_deadline])
          (replicate 2 (loop_select ticker_C)))
   \<and> loop_returned good_transport
       (group_step good_transport
          (foldl (group_step good_transport)
             (Run good_transport (NewTroll ''durov'' ''trolls'') True [parent_deadline])
             (replicate 2 (loop_select ticker_C)))
          (loop_select (ctx_Done DeadlineExceeded)))"
proof -
  let ?t = "NewTroll ''durov'' ''trolls''"
  let ?sched = "[setup_returns, loop_select ticker_C, parent_cancel,
        loop_select (ctx_Done Canceled), run_step, run_step]"
  let ?s = "Run good_transport ?t True ?sched"
  let ?p = "Run good_transport ?t True [parent_deadline]"
  have pc: "run_pc ?s = Returned (Some (Errorf ''status loop: %w'' [] (Some Canceled)))"
    by (simp add: Run_eval good_transport_def)
  have ce: "ctx_Err ?s = Some Canceled"
    by (simp add: Run_eval good_transport_def)
  have ce': "ctx_Err ?p = Some DeadlineExceeded"
    by (simp add: Run_eval)
  have nr: "\<not> loop_returned good_transport ?p"
    by (simp add: Run_eval)
  note a = Run_returns_first_error_once_group_context_done
    [where s = ?s and c = good_transport and t = ?t and flag = True and sched = ?sched,
      OF refl]
  note b = Run_returns_first_error_once_group_context_done
    [where c = good_transport and t = ?t and flag = True and sched = "[parent_deadline]",
      OF refl]
  have "Some (Errorf ''status loop: %w'' [] (Some Canceled)) = first_error (returns ?s)"
    using a pc by blast
  moreover have "\<exists>r. run_pc (Run good_transport ?t True
       ([parent_deadline]
        @ [setup_returns, loop_select (ctx_Done DeadlineExceeded), run_step, run_step]))
       = Returned r"
    using b ce' by blast
  moreover have "\<not> loop_returned good_transport
         (foldl (group_step good_transport) ?p (replicate 2 (loop_select ticker_C)))
     \<and> loop_returned good_transport
         (group_step good_transport
            (foldl (group_step good_transport) ?p (replicate 2 (loop_select ticker_C)))
            (loop_select (ctx_Done DeadlineExceeded)))"
    using b ce' nr by blast
  ultimately show ?thesis
    using pc ce by blast
qed

text \<open>
  C5, as the specification states it, fails in two places. When identity resolution
  fails, \<open>Run\<close> returns the setup error although the context given to \<open>Run\<close> was
  never cancelled, with the status loop off and with the status loop on. And the loop
  does not have to stop at the first \<open>select\<close> after the failed setup cancelled the
  group's context: a \<open>select\<close> at which a tick is ready as well can take the tick, and
  the loop then makes one more status call and has not returned.
\<close>

theorem Run_returns_without_external_cancellation:
  "run_pc (Run bad_transport (NewTroll ''durov'' ''trolls'') False
       [setup_returns, run_step, run_step])
     = Returned (Some (Errorf ''setup: %w'' []
         (Some (Errorf ''get user: %w'' []
           (Some (Errorf ''resolve %q: %w'' [''durov''] (Some (RPC 400))))))))
   \<and> parent_Err (Run bad_transport (NewTroll ''durov'' ''trolls'') False
       [setup_returns, run_step, run_step]) = None
   \<and> run_pc (Run bad_transport (NewTroll ''durov'' ''trolls'') True
       [setup_returns, loop_select ticker_C, loop_select (ctx_Done Canceled),
        run_step, run_step])
     = Returned (Some (Errorf ''setup: %w'' []
         (Some (Errorf ''get user: %w'' []
           (Some (Errorf ''resolve %q: %w'' [''durov''] (Some (RPC 400))))))))
   \<and> parent_Err (Run bad_transport (NewTroll ''durov'' ''trolls'') True
       [setup_returns, loop_select ticker_C, loop_select (ctx_Done Canceled),
        run_step, run_step]) = None
   \<and> ctx_Err (Run bad_transport (NewTroll ''durov'' ''trolls'') True [setup_returns])
     = Some Canceled
   \<and> loop_sel (Run bad_transport (NewTroll ''durov'' ''trolls'') True
       [setup_returns, loop_select ticker_C]) = [ticker_C]
   \<and> \<not> loop_returned bad_transport
       (Run bad_transport (NewTroll ''durov'' ''trolls'') True
          [setup_returns, loop_select ticker_C])
   \<and> fst (statusLoop bad_transport [ticker_C]) =
       [Info ''Run update status loop'' [], NewTicker (2 * Minute),
        Call_AccountUpdateStatus False, Warn ''Got error'' [zap_Error (RPC 4)]]"
  by (simp add: Run_eval bad_transport_def)

end
